theory Spec2Isabelle
  imports Complex_Main "HOL-Library.Char_ord" "HOL-Library.List_Lexorder" "HOL-Library.AList"
begin

section \<open>Python values used by the viewer\<close>

text \<open>
  The exceptions the viewer can let escape. Each one is a value: a function that can raise
  returns \<open>error + 'a\<close>, with \<open>Inl\<close> for the exception.
\<close>

datatype error = KeyError | IndexError | ValueError | TypeError | OverflowError

text \<open>
  \<open>datetime.datetime\<close>: the calendar fields and \<open>tzinfo\<close>. A naive value has
  \<open>tzinfo = None\<close>; an aware one carries its fixed UTC offset, in microseconds.
\<close>

record datetime =
  year :: int
  month :: int
  day :: int
  hour :: int
  minute :: int
  second :: int
  microsecond :: int
  tzinfo :: "int option"

definition is_leap :: "int \<Rightarrow> bool" where
  "is_leap y = (y mod 4 = 0 \<and> (y mod 100 \<noteq> 0 \<or> y mod 400 = 0))"

definition days_in_month :: "int \<Rightarrow> int \<Rightarrow> int" where
  "days_in_month y m =
     (if m = 2 then (if is_leap y then 29 else 28)
      else if m = 4 \<or> m = 6 \<or> m = 9 \<or> m = 11 then 30 else 31)"

definition days_before_year :: "int \<Rightarrow> int" where
  "days_before_year y = (y - 1) * 365 + (y - 1) div 4 - (y - 1) div 100 + (y - 1) div 400"

definition days_before_month :: "int \<Rightarrow> int \<Rightarrow> int" where
  "days_before_month y m = sum_list (map (days_in_month y) [1..m - 1])"

text \<open>\<open>date.toordinal()\<close>: day 1 is 0001-01-01 in the proleptic Gregorian calendar.\<close>

definition toordinal :: "datetime \<Rightarrow> int" where
  "toordinal d = days_before_year (year d) + days_before_month (year d) (month d) + day d"

text \<open>\<open>date.weekday()\<close>: Monday is 0.\<close>

definition weekday :: "datetime \<Rightarrow> int" where
  "weekday d = (toordinal d + 6) mod 7"

text \<open>The calendar fields as microseconds since the start of day 0, the offset ignored.\<close>

definition naive_us :: "datetime \<Rightarrow> int" where
  "naive_us d =
     (((toordinal d * 24 + hour d) * 60 + minute d) * 60 + second d) * 1000000 + microsecond d"

text \<open>
  \<open>a - b\<close> on two datetimes, as a \<open>timedelta\<close> in microseconds. Two naive values are
  subtracted field by field, two aware ones after conversion to UTC, and mixing them
  raises \<open>TypeError\<close>.
\<close>

definition datetime_sub :: "datetime \<Rightarrow> datetime \<Rightarrow> error + int" where
  "datetime_sub a b =
     (case (tzinfo a, tzinfo b) of
        (None, None) \<Rightarrow> Inr (naive_us a - naive_us b)
      | (Some oa, Some ob) \<Rightarrow> Inr ((naive_us a - oa) - (naive_us b - ob))
      | _ \<Rightarrow> Inl TypeError)"

text \<open>
  \<open>timedelta.total_seconds()\<close>, in exact arithmetic. The program computes it, and the
  division by 60 that follows, in double precision. The two agree on the whole minutes
  of a difference shorter than \<open>2 ^ 32\<close> seconds (about 136 years): such a difference
  is below \<open>2 ^ 52\<close> microseconds, so two correctly rounded operations cannot carry a
  quotient across a whole number. Statements about the stored minutes keep to that range.
\<close>

definition total_seconds :: "int \<Rightarrow> real" where
  "total_seconds us = of_int us / 1000000"

text \<open>\<open>int(x)\<close> on a float: the fractional part is dropped, towards zero.\<close>

definition py_int :: "real \<Rightarrow> int" where
  "py_int x = (if 0 \<le> x then \<lfloor>x\<rfloor> else \<lceil>x\<rceil>)"

subsection \<open>Strings\<close>

text \<open>\<open>sub in s\<close> on strings: \<open>sub\<close> occurs in \<open>s\<close> as a contiguous run.\<close>

fun str_contains :: "string \<Rightarrow> string \<Rightarrow> bool" where
  "str_contains sub [] = (sub = [])"
| "str_contains sub (c # cs) = (take (length sub) (c # cs) = sub \<or> str_contains sub cs)"

text \<open>\<open>s.split(sep)\<close> for a one-character separator: never an empty list.\<close>

fun str_split :: "char \<Rightarrow> string \<Rightarrow> string list" where
  "str_split sep [] = [[]]"
| "str_split sep (c # cs) =
     (if c = sep then [] # str_split sep cs
      else (case str_split sep cs of
              w # ws \<Rightarrow> (c # w) # ws
            | [] \<Rightarrow> [[c]]))"

text \<open>\<open>s.replace('Z', '+00:00')\<close>.\<close>

definition replace_Z :: "string \<Rightarrow> string" where
  "replace_Z s = concat (map (\<lambda>c. if c = CHR ''Z'' then ''+00:00'' else [c]) s)"

text \<open>\<open>xs[i]\<close>: a negative index counts from the end, out of range raises.\<close>

definition index :: "'a list \<Rightarrow> int \<Rightarrow> error + 'a" where
  "index xs i =
     (if 0 \<le> i \<and> i < int (length xs) then Inr (xs ! nat i)
      else if i < 0 \<and> - int (length xs) \<le> i then Inr (xs ! nat (int (length xs) + i))
      else Inl IndexError)"

text \<open>\<open>xs[i] = v\<close>, with the same index rule.\<close>

definition set_index :: "'a list \<Rightarrow> int \<Rightarrow> 'a \<Rightarrow> error + 'a list" where
  "set_index xs i v =
     (if 0 \<le> i \<and> i < int (length xs) then Inr (xs[nat i := v])
      else if i < 0 \<and> - int (length xs) \<le> i then Inr (xs[nat (int (length xs) + i) := v])
      else Inl IndexError)"

text \<open>\<open>xs[:k]\<close>: a negative \<open>k\<close> drops that many elements from the end.\<close>

definition slice_to :: "'a list \<Rightarrow> int \<Rightarrow> 'a list" where
  "slice_to xs k = (if k < 0 then take (nat (int (length xs) + k)) xs else take (nat k) xs)"

definition digit :: "int \<Rightarrow> char" where
  "digit d =
     (if d = 0 then CHR ''0'' else if d = 1 then CHR ''1'' else if d = 2 then CHR ''2''
      else if d = 3 then CHR ''3'' else if d = 4 then CHR ''4'' else if d = 5 then CHR ''5''
      else if d = 6 then CHR ''6'' else if d = 7 then CHR ''7'' else if d = 8 then CHR ''8''
      else CHR ''9'')"

definition digit_val :: "char \<Rightarrow> int option" where
  "digit_val c =
     map_of [(CHR ''0'', 0), (CHR ''1'', 1), (CHR ''2'', 2), (CHR ''3'', 3), (CHR ''4'', 4),
             (CHR ''5'', 5), (CHR ''6'', 6), (CHR ''7'', 7), (CHR ''8'', 8), (CHR ''9'', 9)] c"

text \<open>The value of a run of decimal digits, most significant first, after \<open>acc\<close>.\<close>

fun digits_val :: "int \<Rightarrow> string \<Rightarrow> int option" where
  "digits_val acc [] = Some acc"
| "digits_val acc (c # cs) =
     (case digit_val c of None \<Rightarrow> None | Some d \<Rightarrow> digits_val (acc * 10 + d) cs)"

text \<open>
  \<open>int(s)\<close> on a string: an optional sign and at least one decimal digit; anything else
  is a \<open>ValueError\<close>. (Python also accepts surrounding blanks and underscores between
  digits; no string the viewer builds has them.)
\<close>

definition int_of_str :: "string \<Rightarrow> error + int" where
  "int_of_str s =
     (case s of
        [] \<Rightarrow> Inl ValueError
      | c # cs \<Rightarrow>
          if c = CHR ''-'' \<or> c = CHR ''+'' then
            (if cs = [] then Inl ValueError
             else (case digits_val 0 cs of
                     None \<Rightarrow> Inl ValueError
                   | Some n \<Rightarrow> Inr (if c = CHR ''-'' then - n else n)))
          else (case digits_val 0 s of None \<Rightarrow> Inl ValueError | Some n \<Rightarrow> Inr n))"

definition pad2 :: "int \<Rightarrow> string" where
  "pad2 n = [digit (n div 10 mod 10), digit (n mod 10)]"

definition pad4 :: "int \<Rightarrow> string" where
  "pad4 n = [digit (n div 1000 mod 10), digit (n div 100 mod 10),
             digit (n div 10 mod 10), digit (n mod 10)]"

text \<open>
  \<open>%Y\<close> as the C library of the platform the program runs on writes it (glibc): the year
  in decimal, with no padding, so a year below 1000 has fewer than four digits.
\<close>

definition year_digits :: "int \<Rightarrow> string" where
  "year_digits y =
     (if 1000 \<le> y then pad4 y
      else if 100 \<le> y then [digit (y div 100 mod 10), digit (y div 10 mod 10), digit (y mod 10)]
      else if 10 \<le> y then pad2 y
      else [digit (y mod 10)])"

text \<open>
  \<open>dt.strftime('%Y-%m-%d %H:%M')\<close>: the year as above, every other field zero-padded to
  two digits.
\<close>

definition strftime :: "datetime \<Rightarrow> string" where
  "strftime d =
     year_digits (year d) @ ''-'' @ pad2 (month d) @ ''-'' @ pad2 (day d) @ '' '' @
     pad2 (hour d) @ '':'' @ pad2 (minute d)"

text \<open>The field ranges of a \<open>datetime\<close> value.\<close>

definition valid_datetime :: "datetime \<Rightarrow> bool" where
  "valid_datetime d =
     (1 \<le> year d \<and> year d \<le> 9999 \<and> 1 \<le> month d \<and> month d \<le> 12 \<and>
      1 \<le> day d \<and> day d \<le> days_in_month (year d) (month d) \<and>
      0 \<le> hour d \<and> hour d < 24 \<and> 0 \<le> minute d \<and> minute d < 60 \<and>
      0 \<le> second d \<and> second d < 60 \<and> 0 \<le> microsecond d \<and> microsecond d < 1000000)"

section \<open>Blocks and the loader\<close>

text \<open>One element of the \<open>blocks\<close> array of the input, by its JSON keys.\<close>

record block_data =
  json_id :: string
  startTime :: string
  endTime :: string
  actualEndTime :: "string option"
  isActive :: bool
  isGap :: bool
  json_entries :: int
  totalTokens :: int
  costUSD :: real
  json_models :: "string list"

text \<open>The input object: \<open>blocks\<close> is \<open>None\<close> when the key is absent.\<close>

record json_data =
  json_blocks :: "block_data list option"

text \<open>The dataclass \<open>Block\<close>.\<close>

record Block =
  block_id :: string
  start_time :: string
  end_time :: string
  actual_end_time :: "string option"
  is_active :: bool
  is_gap :: bool
  entries :: int
  total_tokens :: int
  cost_usd :: real
  models :: "string list"
  duration_minutes :: int

text \<open>The branch of the loader's inner loop that shortens one model name.\<close>

definition simplify_model :: "string \<Rightarrow> string" where
  "simplify_model model =
     (if str_contains ''opus'' model then ''opus-4''
      else if str_contains ''sonnet'' model then ''sonnet-4''
      else if str_contains ''synthetic'' model then ''synthetic''
      else model)"

text \<open>
  The string whose timestamp ends the block: \<open>actualEndTime\<close> when it is truthy (neither
  \<open>null\<close> nor empty), \<open>endTime\<close> otherwise.
\<close>

definition end_time_str :: "block_data \<Rightarrow> string" where
  "end_time_str bd =
     (case actualEndTime bd of
        None \<Rightarrow> endTime bd
      | Some s \<Rightarrow> if s \<noteq> [] then s else endTime bd)"

text \<open>
  The body of the loader's loop for a block that is not a gap. The library parser
  \<open>datetime.fromisoformat\<close> is the parameter \<open>fromisoformat\<close>. \<open>list(set(models))\<close> keeps
  one copy of each name, in an order Python does not fix; \<open>remdups\<close> is one such order.
\<close>

definition load_block :: "(string \<Rightarrow> error + datetime) \<Rightarrow> block_data \<Rightarrow> error + Block" where
  "load_block fromisoformat bd =
     (case fromisoformat (replace_Z (startTime bd)) of
        Inl e \<Rightarrow> Inl e
      | Inr start \<Rightarrow>
     (case fromisoformat (replace_Z (end_time_str bd)) of
        Inl e \<Rightarrow> Inl e
      | Inr endt \<Rightarrow>
     (case datetime_sub endt start of
        Inl e \<Rightarrow> Inl e
      | Inr delta \<Rightarrow>
          Inr \<lparr> block_id = json_id bd,
                start_time = strftime start,
                end_time = strftime endt,
                actual_end_time = actualEndTime bd,
                is_active = isActive bd,
                is_gap = isGap bd,
                entries = json_entries bd,
                total_tokens = totalTokens bd,
                cost_usd = costUSD bd,
                models = remdups (map simplify_model (json_models bd)),
                duration_minutes = py_int (total_seconds delta / 60) \<rparr>)))"

text \<open>The loader's loop: gap blocks are skipped, the first exception ends the load.\<close>

fun load_blocks :: "(string \<Rightarrow> error + datetime) \<Rightarrow> block_data list \<Rightarrow> error + Block list" where
  "load_blocks fromisoformat [] = Inr []"
| "load_blocks fromisoformat (bd # rest) =
     (if isGap bd then load_blocks fromisoformat rest
      else (case load_block fromisoformat bd of
              Inl e \<Rightarrow> Inl e
            | Inr b \<Rightarrow>
                (case load_blocks fromisoformat rest of
                   Inl e \<Rightarrow> Inl e
                 | Inr bs \<Rightarrow> Inr (b # bs))))"

section \<open>Grouping by date\<close>

text \<open>One value of the \<open>daily_data\<close> dictionary.\<close>

record daily =
  day_blocks :: "Block list"
  total_duration :: int
  total_cost :: real
  day_total_tokens :: int
  total_entries :: int
  day_models :: "string set"

definition empty_day :: daily where
  "empty_day = \<lparr> day_blocks = [], total_duration = 0, total_cost = 0,
                  day_total_tokens = 0, total_entries = 0, day_models = {} \<rparr>"

definition add_block :: "Block \<Rightarrow> daily \<Rightarrow> daily" where
  "add_block block d =
     \<lparr> day_blocks = day_blocks d @ [block],
       total_duration = total_duration d + duration_minutes block,
       total_cost = total_cost d + cost_usd block,
       day_total_tokens = day_total_tokens d + total_tokens block,
       total_entries = total_entries d + entries block,
       day_models = day_models d \<union> set (models block) \<rparr>"

text \<open>\<open>block.start_time.split(' ')[0]\<close>.\<close>

definition date_str_of :: "Block \<Rightarrow> string" where
  "date_str_of block = hd (str_split CHR '' '' (start_time block))"

text \<open>
  The dictionary is an association list in insertion order, as a Python \<open>dict\<close> keeps it:
  a new key goes to the end, an existing key is updated in place.
\<close>

definition group_step :: "(string \<times> daily) list \<Rightarrow> Block \<Rightarrow> (string \<times> daily) list" where
  "group_step dd block =
     (let date_str = date_str_of block;
          dd' = (if map_of dd date_str = None then AList.update date_str empty_day dd else dd)
      in AList.map_entry date_str (add_block block) dd')"

definition group_by_date :: "Block list \<Rightarrow> (string \<times> daily) list" where
  "group_by_date bs = foldl group_step [] bs"

text \<open>The viewer object after \<open>load_from_json\<close>.\<close>

record viewer =
  blocks :: "Block list"
  daily_data :: "(string \<times> daily) list"
  no_color :: bool

text \<open>\<open>json_data.get('blocks', [])\<close>.\<close>

definition get_blocks :: "json_data \<Rightarrow> block_data list" where
  "get_blocks jd = (case json_blocks jd of None \<Rightarrow> [] | Some l \<Rightarrow> l)"

definition load_from_json ::
  "(string \<Rightarrow> error + datetime) \<Rightarrow> bool \<Rightarrow> json_data \<Rightarrow> error + viewer" where
  "load_from_json fromisoformat nc jd =
     (case load_blocks fromisoformat (get_blocks jd) of
        Inl e \<Rightarrow> Inl e
      | Inr bs \<Rightarrow> Inr \<lparr> blocks = bs, daily_data = group_by_date bs, no_color = nc \<rparr>)"

section \<open>The timeline bar\<close>

text \<open>
  A Python string that can hold characters beyond ASCII is a list of code points, each an
  integer as \<open>ord\<close> gives it. The bar characters and the weekday symbols are such
  characters.
\<close>

type_synonym ustr = "int list"

definition ascii :: "string \<Rightarrow> ustr" where
  "ascii s = map of_char s"

datatype color =
  HEADER | BLUE | GREEN | YELLOW | RED | ENDC | BOLD | UNDERLINE | CYAN | WHITE | GRAY | MAGENTA

text \<open>The table \<open>COLORS\<close> of the constructor: empty strings under \<open>no_color\<close>.\<close>

definition COLORS :: "bool \<Rightarrow> color \<Rightarrow> ustr" where
  "COLORS nc c =
     (if nc then []
      else 27 # ascii (case c of
          HEADER \<Rightarrow> ''[95m'' | BLUE \<Rightarrow> ''[94m'' | GREEN \<Rightarrow> ''[92m'' | YELLOW \<Rightarrow> ''[93m''
        | RED \<Rightarrow> ''[91m'' | ENDC \<Rightarrow> ''[0m'' | BOLD \<Rightarrow> ''[1m'' | UNDERLINE \<Rightarrow> ''[4m''
        | CYAN \<Rightarrow> ''[96m'' | WHITE \<Rightarrow> ''[97m'' | GRAY \<Rightarrow> ''[90m'' | MAGENTA \<Rightarrow> ''[95m''))"

datatype bar_key = Opus | Sonnet | Mixed | Synthetic | Empty | HourMark

text \<open>The table \<open>BAR_CHARS\<close>: each entry is one character, given by its code point.\<close>

definition BAR_CHARS :: "bar_key \<Rightarrow> int" where
  "BAR_CHARS k =
     (case k of Opus \<Rightarrow> 0x2588 | Sonnet \<Rightarrow> 0x2593 | Mixed \<Rightarrow> 0x2592
      | Synthetic \<Rightarrow> 0x2591 | Empty \<Rightarrow> 0xB7 | HourMark \<Rightarrow> 0x2502)"

text \<open>
  The hour and minute read back from \<open>start_time\<close>:
  \<open>time_parts = block.start_time.split(' ')[1].split(':')\<close>, then \<open>int\<close> of the first
  two parts.
\<close>

definition time_parts :: "Block \<Rightarrow> error + (int \<times> int)" where
  "time_parts block =
     (case index (str_split CHR '' '' (start_time block)) 1 of
        Inl e \<Rightarrow> Inl e
      | Inr t \<Rightarrow>
     (case index (str_split CHR '':'' t) 0 of
        Inl e \<Rightarrow> Inl e
      | Inr p0 \<Rightarrow>
     (case int_of_str p0 of
        Inl e \<Rightarrow> Inl e
      | Inr h \<Rightarrow>
     (case index (str_split CHR '':'' t) 1 of
        Inl e \<Rightarrow> Inl e
      | Inr p1 \<Rightarrow>
     (case int_of_str p1 of
        Inl e \<Rightarrow> Inl e
      | Inr m \<Rightarrow> Inr (h, m))))))"

text \<open>The character for a block: \<open>models[0]\<close> is read when there is at most one model.\<close>

definition bar_char :: "Block \<Rightarrow> error + int" where
  "bar_char block =
     (if length (models block) > 1 then Inr (BAR_CHARS Mixed)
      else (case index (models block) 0 of
              Inl e \<Rightarrow> Inl e
            | Inr m0 \<Rightarrow>
                if str_contains ''synthetic'' m0 then Inr (BAR_CHARS Synthetic)
                else if str_contains ''sonnet'' m0 then Inr (BAR_CHARS Sonnet)
                else Inr (BAR_CHARS Opus)))"

text \<open>
  The inner loop \<open>for i in range(...)\<close>: slot \<open>start_pos + i\<close> is written when it is
  below \<open>width\<close>.
\<close>

fun fill_slots :: "ustr \<Rightarrow> int \<Rightarrow> int \<Rightarrow> int \<Rightarrow> int list \<Rightarrow> error + ustr" where
  "fill_slots timeline width start_pos c [] = Inr timeline"
| "fill_slots timeline width start_pos c (i # rest) =
     (if start_pos + i < width then
        (case set_index timeline (start_pos + i) c of
           Inl e \<Rightarrow> Inl e
         | Inr t \<Rightarrow> fill_slots t width start_pos c rest)
      else fill_slots timeline width start_pos c rest)"

text \<open>The body of the loop over the blocks of a day.\<close>

definition place_block :: "int \<Rightarrow> ustr \<Rightarrow> Block \<Rightarrow> error + ustr" where
  "place_block width timeline block =
     (case time_parts block of
        Inl e \<Rightarrow> Inl e
      | Inr (h, m) \<Rightarrow>
          (let start_pos = py_int (of_int (h * 60 + m) / 30);
               duration_blocks = max 1 (py_int (of_int (duration_minutes block) / 30))
           in case bar_char block of
                Inl e \<Rightarrow> Inl e
              | Inr c \<Rightarrow>
                  fill_slots timeline width start_pos c
                    [0..min duration_blocks (width - start_pos) - 1]))"

fun place_blocks :: "int \<Rightarrow> ustr \<Rightarrow> Block list \<Rightarrow> error + ustr" where
  "place_blocks width timeline [] = Inr timeline"
| "place_blocks width timeline (block # rest) =
     (case place_block width timeline block of
        Inl e \<Rightarrow> Inl e
      | Inr t \<Rightarrow> place_blocks width t rest)"

text \<open>The string put where a six-hour marker stands.\<close>

definition marker :: "bool \<Rightarrow> ustr" where
  "marker nc = COLORS nc GRAY @ ascii ''|'' @ COLORS nc ENDC"

text \<open>
  The pieces appended to \<open>marked_timeline\<close>, one for each character of the filled
  timeline: the marker at every twelfth position, the character itself elsewhere.
\<close>

definition marked_cells :: "bool \<Rightarrow> ustr \<Rightarrow> ustr list" where
  "marked_cells nc timeline =
     map (\<lambda>(i, ch). if i mod 12 = 0 then marker nc else [ch]) (enumerate 0 timeline)"

definition get_timeline_bar :: "bool \<Rightarrow> Block list \<Rightarrow> int \<Rightarrow> error + ustr" where
  "get_timeline_bar nc bs width =
     (case place_blocks width (replicate (nat width) (BAR_CHARS Empty)) bs of
        Inl e \<Rightarrow> Inl e
      | Inr timeline \<Rightarrow> Inr (concat (marked_cells nc timeline)))"

section \<open>Reading dates back\<close>

text \<open>
  One numeric field of \<open>strptime\<close>: between \<open>lo\<close> and \<open>hi\<close> decimal digits.
\<close>

definition field :: "nat \<Rightarrow> nat \<Rightarrow> string \<Rightarrow> int option" where
  "field lo hi s = (if lo \<le> length s \<and> length s \<le> hi then digits_val 0 s else None)"

text \<open>
  \<open>datetime.strptime\<close> for the two formats the viewer uses, on the strings the loader
  builds with \<open>strftime\<close>: a year of exactly four digits, one or two digits in the other
  fields, each in its range, and a day that exists in its month. The result is naive.
  Anything else is a \<open>ValueError\<close>; a year written with fewer than four digits is.
\<close>

definition strptime_fields :: "string \<Rightarrow> string \<Rightarrow> error + datetime" where
  "strptime_fields date_part time_part =
     (case (str_split CHR ''-'' date_part, str_split CHR '':'' time_part) of
        ([y, m, d], [h, mi]) \<Rightarrow>
          (case (field 4 4 y, field 1 2 m, field 1 2 d, field 1 2 h, field 1 2 mi) of
             (Some yv, Some mv, Some dv, Some hv, Some miv) \<Rightarrow>
               (let dt = \<lparr> year = yv, month = mv, day = dv, hour = hv, minute = miv,
                             second = 0, microsecond = 0, tzinfo = None \<rparr>
                in if valid_datetime dt then Inr dt else Inl ValueError)
           | _ \<Rightarrow> Inl ValueError)
      | _ \<Rightarrow> Inl ValueError)"

text \<open>\<open>datetime.strptime(s, '%Y-%m-%d')\<close>.\<close>

definition strptime_date :: "string \<Rightarrow> error + datetime" where
  "strptime_date s = strptime_fields s ''0:0''"

text \<open>\<open>datetime.strptime(s, '%Y-%m-%d %H:%M')\<close>.\<close>

definition strptime_minute :: "string \<Rightarrow> error + datetime" where
  "strptime_minute s =
     (case str_split CHR '' '' s of
        [d, t] \<Rightarrow> strptime_fields d t
      | _ \<Rightarrow> Inl ValueError)"

text \<open>The symbols of \<open>weekdays\<close>, Monday first, by code point.\<close>

definition weekdays :: "int list" where
  "weekdays = [0x6708, 0x706B, 0x6C34, 0x6728, 0x91D1, 0x571F, 0x65E5]"

definition get_weekday :: "string \<Rightarrow> error + int" where
  "get_weekday date_str =
     (case strptime_date date_str of
        Inl e \<Rightarrow> Inl e
      | Inr date \<Rightarrow> index weekdays (weekday date))"

definition get_cost_color :: "real \<Rightarrow> color" where
  "get_cost_color cost = (if cost \<ge> 50 then RED else if cost \<ge> 20 then YELLOW else GREEN)"

section \<open>The views\<close>

text \<open>
  Standard output is the list of lines printed, each line by the \<open>print\<close> call that
  writes it and the values it formats.
\<close>

datatype line =
    HeaderRule
  | HeaderTitle
  | HeaderRange string string
  | NoData
  | NoDataFor string
  | StatsTitle
  | StatDuration int int
  | StatCost real
  | StatTokens int
  | StatEntries int
  | StatBlocks nat
  | StatDays nat
  | StatMeanBlock real
  | StatMeanDayCost real
  | LegendTitle
  | LegendItem bar_key
  | LegendMarker
  | BlankLine
  | TableHeader
  | TableRule
  | DayRow string int nat int int ustr int color real
  | DetailTitle string int
  | DetailRule
  | BlockLine string int int "string list" int real int
  | DetailTotal int int int color real
  | TimelineTitle
  | TimelineLine ustr
  | SummaryTitle
  | SummaryRule
  | ModelLine string int int int real
  | CurrentLine string real int int color real string int int nat

text \<open>
  What a view has done when it ends: the lines it printed, and the exception that ended
  it, if one did.
\<close>

type_synonym run = "line list \<times> error option"

definition then_run :: "run \<Rightarrow> run \<Rightarrow> run" where
  "then_run a b = (case snd a of Some e \<Rightarrow> a | None \<Rightarrow> (fst a @ fst b, snd b))"

definition print_header :: "viewer \<Rightarrow> run" where
  "print_header v =
     ([HeaderRule, HeaderTitle] @
      (case map date_str_of (blocks v) of
         [] \<Rightarrow> []
       | d # ds \<Rightarrow> [HeaderRange (fold min ds d) (fold max ds d)]) @
      [HeaderRule], None)"

definition print_stats :: "viewer \<Rightarrow> run" where
  "print_stats v =
     (if blocks v = [] then ([NoData], None)
      else
        (let total_duration = sum_list (map (\<lambda>p. total_duration (snd p)) (daily_data v));
             total_cost = sum_list (map (\<lambda>p. total_cost (snd p)) (daily_data v));
             total_tokens = sum_list (map (\<lambda>p. day_total_tokens (snd p)) (daily_data v));
             total_entries = sum_list (map (\<lambda>p. total_entries (snd p)) (daily_data v));
             total_blocks = length (blocks v)
         in ([StatsTitle,
              StatDuration (total_duration div 60) (total_duration mod 60),
              StatCost total_cost,
              StatTokens total_tokens,
              StatEntries total_entries,
              StatBlocks total_blocks,
              StatDays (length (daily_data v))] @
             (if total_blocks > 0
              then [StatMeanBlock (of_int total_duration / of_nat total_blocks),
                    StatMeanDayCost (total_cost / of_nat (length (daily_data v)))]
              else []), None)))"

definition print_legend :: run where
  "print_legend =
     ([LegendTitle, LegendItem Opus, LegendItem Sonnet, LegendItem Synthetic,
       LegendItem Mixed, LegendItem Empty, LegendMarker, BlankLine], None)"

text \<open>
  One row of the day table. The bar is built first, with the default width; the
  weekday is looked up while the row is formatted.
\<close>

definition print_day_row :: "bool \<Rightarrow> string \<Rightarrow> daily \<Rightarrow> run" where
  "print_day_row nc date_str data =
     (case get_timeline_bar nc (day_blocks data) 48 of
        Inl e \<Rightarrow> ([], Some e)
      | Inr timeline_bar \<Rightarrow>
          (case get_weekday date_str of
             Inl e \<Rightarrow> ([], Some e)
           | Inr wd \<Rightarrow>
               ([DayRow date_str wd (length (day_blocks data))
                   (total_duration data div 60) (total_duration data mod 60)
                   timeline_bar (day_total_tokens data)
                   (get_cost_color (total_cost data)) (total_cost data)], None)))"

fun print_rows :: "bool \<Rightarrow> (string \<times> daily) list \<Rightarrow> run" where
  "print_rows nc [] = ([], None)"
| "print_rows nc ((date_str, data) # rest) =
     then_run (print_day_row nc date_str data) (print_rows nc rest)"

text \<open>
  \<open>sorted(items, key=..., reverse=True)\<close>: descending by key, and stable, so items with
  equal keys keep the order they had.
\<close>

definition sorted_desc :: "('a \<Rightarrow> 'k::linorder) \<Rightarrow> 'a list \<Rightarrow> 'a list" where
  "sorted_desc key xs = rev (sort_key key (rev xs))"

text \<open>
  The rows the day table shows, in order. With a sort order the filter is not applied
  and a truthy \<open>limit\<close> cuts the list; without one the dates are in ascending order and
  the filter drops days below its threshold.
\<close>

definition dates_to_show ::
  "(string \<times> daily) list \<Rightarrow> string \<Rightarrow> string option \<Rightarrow> int option \<Rightarrow> (string \<times> daily) list" where
  "dates_to_show dd filter_type sort_by limit =
     (if sort_by \<noteq> None \<and> sort_by \<noteq> Some [] then
        (let sorted_days =
               (if sort_by = Some ''cost'' then sorted_desc (\<lambda>x. total_cost (snd x)) dd
                else if sort_by = Some ''duration'' then sorted_desc (\<lambda>x. total_duration (snd x)) dd
                else [])
         in (case limit of
               None \<Rightarrow> sorted_days
             | Some n \<Rightarrow> if n \<noteq> 0 then slice_to sorted_days n else sorted_days))
      else
        filter
          (\<lambda>(date_str, data).
             \<not> (filter_type = ''high-usage'' \<and> total_duration data < 300) \<and>
             \<not> (filter_type = ''high-cost'' \<and> total_cost data < 50))
          (List.map_filter (\<lambda>date_str. map_option (Pair date_str) (map_of dd date_str))
             (sort (map fst dd))))"

definition print_timeline_table ::
  "viewer \<Rightarrow> string \<Rightarrow> string option \<Rightarrow> int option \<Rightarrow> run" where
  "print_timeline_table v filter_type sort_by limit =
     (if daily_data v = [] then ([NoData], None)
      else
        then_run ([TableHeader, TableRule], None)
          (then_run
             (print_rows (no_color v) (dates_to_show (daily_data v) filter_type sort_by limit))
             ([TableRule], None)))"

text \<open>The lines of the day detail, one for each block of the day.\<close>

fun print_block_lines :: "Block list \<Rightarrow> run" where
  "print_block_lines [] = ([], None)"
| "print_block_lines (block # rest) =
     (case index (str_split CHR '' '' (start_time block)) 1 of
        Inl e \<Rightarrow> ([], Some e)
      | Inr t \<Rightarrow>
          then_run
            ([BlockLine t (duration_minutes block div 60) (duration_minutes block mod 60)
                (models block) (total_tokens block) (cost_usd block) (entries block)], None)
            (print_block_lines rest))"

definition print_daily_detail :: "viewer \<Rightarrow> string \<Rightarrow> run" where
  "print_daily_detail v date =
     (case map_of (daily_data v) date of
        None \<Rightarrow> ([NoDataFor date], None)
      | Some data \<Rightarrow>
          then_run (print_header v)
         (then_run (case get_weekday date of
                      Inl e \<Rightarrow> ([], Some e)
                    | Inr wd \<Rightarrow> ([DetailTitle date wd, DetailRule], None))
         (then_run (print_block_lines (day_blocks data))
         (then_run ([DetailRule,
                     DetailTotal (total_duration data div 60) (total_duration data mod 60)
                       (day_total_tokens data) (get_cost_color (total_cost data))
                       (total_cost data),
                     TimelineTitle], None)
                   (case get_timeline_bar (no_color v) (day_blocks data) 48 of
                      Inl e \<Rightarrow> ([], Some e)
                    | Inr timeline_bar \<Rightarrow> ([TimelineLine timeline_bar], None))))))"

text \<open>One value of \<open>model_stats\<close> in the model summary.\<close>

record model_stat =
  ms_count :: int
  ms_duration :: int
  ms_tokens :: int
  ms_cost :: real

definition model_stats_step :: "Block \<Rightarrow> (string \<times> model_stat) list \<Rightarrow> string \<Rightarrow> (string \<times> model_stat) list" where
  "model_stats_step block st model =
     (let st' = (if map_of st model = None
                 then AList.update model \<lparr> ms_count = 0, ms_duration = 0, ms_tokens = 0, ms_cost = 0 \<rparr> st
                 else st)
      in AList.map_entry model
           (\<lambda>x. \<lparr> ms_count = ms_count x + 1,
                   ms_duration = ms_duration x + duration_minutes block,
                   ms_tokens = ms_tokens x + total_tokens block,
                   ms_cost = ms_cost x + cost_usd block \<rparr>) st')"

definition model_stats :: "Block list \<Rightarrow> (string \<times> model_stat) list" where
  "model_stats bs = foldl (\<lambda>st block. foldl (model_stats_step block) st (models block)) [] bs"

definition print_model_summary :: "viewer \<Rightarrow> run" where
  "print_model_summary v =
     ([SummaryTitle, SummaryRule] @
      map (\<lambda>(model, x). ModelLine model (ms_count x) (ms_duration x div 60)
                           (ms_duration x mod 60) (ms_cost x))
        (sorted_desc (\<lambda>x. ms_cost (snd x)) (model_stats (blocks v))) @
      [SummaryRule], None)"

section \<open>The current session\<close>

text \<open>The two constants at the head of \<open>get_current_session_info\<close>.\<close>

definition MAX_TOKENS_5H :: int where
  "MAX_TOKENS_5H = 58679737"


text \<open>\<open>dt + timedelta(days=1)\<close>: past 9999-12-31 it raises \<open>OverflowError\<close>.\<close>

definition next_day :: "datetime \<Rightarrow> error + datetime" where
  "next_day d =
     (if day d < days_in_month (year d) (month d) then Inr (d\<lparr>day := day d + 1\<rparr>)
      else if month d < 12 then Inr (d\<lparr>month := month d + 1, day := 1\<rparr>)
      else if year d < 9999 then Inr (d\<lparr>year := year d + 1, month := 1, day := 1\<rparr>)
      else Inl OverflowError)"

text \<open>The dictionary \<open>get_current_session_info\<close> returns.\<close>

record session_info =
  info_model :: string
  info_total_cost :: real
  info_total_tokens :: int
  info_max_tokens :: int
  info_usage_percent :: real
  info_reset_time :: string
  info_time_remaining :: "int \<times> int"
  info_session_count :: nat

text \<open>
  The blocks whose start lies in \<open>[block_start_time, reset_time)\<close>. Naive datetimes are
  compared by their calendar fields.
\<close>

fun current_block_sessions :: "datetime \<Rightarrow> datetime \<Rightarrow> Block list \<Rightarrow> error + Block list" where
  "current_block_sessions block_start_time reset_time [] = Inr []"
| "current_block_sessions block_start_time reset_time (block # rest) =
     (case strptime_minute (start_time block) of
        Inl e \<Rightarrow> Inl e
      | Inr block_time \<Rightarrow>
          (case current_block_sessions block_start_time reset_time rest of
             Inl e \<Rightarrow> Inl e
           | Inr cs \<Rightarrow>
               Inr (if naive_us block_time \<ge> naive_us block_start_time \<and>
                       naive_us block_time < naive_us reset_time
                    then block # cs else cs)))"

text \<open>\<open>model_counts[model] = model_counts.get(model, 0) + 1\<close>.\<close>

definition count_model :: "(string \<times> int) list \<Rightarrow> string \<Rightarrow> (string \<times> int) list" where
  "count_model mc model =
     AList.update model ((case map_of mc model of None \<Rightarrow> 0 | Some n \<Rightarrow> n) + 1) mc"

text \<open>\<open>max(items, key=...)\<close>: the first item with the largest key.\<close>

fun max_by :: "('a \<Rightarrow> int) \<Rightarrow> 'a \<Rightarrow> 'a list \<Rightarrow> 'a" where
  "max_by key best [] = best"
| "max_by key best (x # xs) = max_by key (if key x > key best then x else best) xs"

text \<open>
  The two ends of the current window: \<open>block_start_time\<close> is the last hour divisible by
  five, \<open>reset_time\<close> the hour five later, on the next day when that is past midnight.
\<close>

definition block_start_time_of :: "datetime \<Rightarrow> datetime" where
  "block_start_time_of now =
     (let current_hour = hour now;
          block_start_hour = (current_hour div 5) * 5
      in now\<lparr>hour := block_start_hour, minute := 0, second := 0, microsecond := 0\<rparr>)"

definition reset_time_of :: "datetime \<Rightarrow> error + datetime" where
  "reset_time_of now =
     (let current_hour = hour now;
          block_start_hour = (current_hour div 5) * 5;
          block_end_hour = block_start_hour + 5;
          reset_time = now\<lparr>hour := block_end_hour mod 24, minute := 0, second := 0, microsecond := 0\<rparr>
      in if block_end_hour \<ge> 24 then next_day reset_time else Inr reset_time)"

definition get_current_session_info :: "viewer \<Rightarrow> datetime \<Rightarrow> error + session_info" where
  "get_current_session_info v now =
     (case reset_time_of now of
        Inl e \<Rightarrow> Inl e
      | Inr reset_time \<Rightarrow>
          (case current_block_sessions (block_start_time_of now) reset_time (blocks v) of
             Inl e \<Rightarrow> Inl e
           | Inr cs \<Rightarrow>
               (let total_tokens = sum_list (map total_tokens cs);
                    total_cost = sum_list (map cost_usd cs);
                    model_counts = foldl (\<lambda>mc block. foldl count_model mc (models block)) [] cs;
                    primary_model = (case model_counts of
                                       [] \<Rightarrow> ''N/A''
                                     | x # xs \<Rightarrow> fst (max_by snd x xs));
                    usage_percent = (if MAX_TOKENS_5H > 0
                                     then of_int total_tokens / of_int MAX_TOKENS_5H * 100
                                     else 0);
                    time_remaining = total_seconds (naive_us reset_time - naive_us now)
                in Inr \<lparr> info_model = primary_model,
                         info_total_cost = total_cost,
                         info_total_tokens = total_tokens,
                         info_max_tokens = MAX_TOKENS_5H,
                         info_usage_percent = usage_percent,
                         info_reset_time = pad2 (hour reset_time) @ '':'' @ pad2 (minute reset_time),
                         info_time_remaining =
                           (\<lfloor>time_remaining / 3600\<rfloor>,
                            \<lfloor>(time_remaining - 3600 * of_int \<lfloor>time_remaining / 3600\<rfloor>) / 60\<rfloor>),
                         info_session_count = length cs \<rparr>)))"

definition print_current_session_line :: "viewer \<Rightarrow> datetime \<Rightarrow> run" where
  "print_current_session_line v now =
     (case get_current_session_info v now of
        Inl e \<Rightarrow> ([], Some e)
      | Inr info \<Rightarrow>
          (let usage_color = (if info_usage_percent info \<ge> 80 then RED
                              else if info_usage_percent info \<ge> 50 then YELLOW else GREEN)
           in ([CurrentLine (info_model info) (info_total_cost info) (info_total_tokens info)
                  (info_max_tokens info) usage_color (info_usage_percent info)
                  (info_reset_time info) (fst (info_time_remaining info))
                  (snd (info_time_remaining info)) (info_session_count info)], None)))"

section \<open>The command line\<close>

text \<open>The parsed arguments, \<open>args\<close>.\<close>

record args =
  arg_file :: "string option"
  arg_high_usage :: bool
  arg_high_cost :: bool
  arg_sort_cost :: bool
  arg_sort_duration :: bool
  arg_date :: "string option"
  arg_summary :: bool
  arg_model_summary :: bool
  arg_no_color :: bool
  arg_no_legend :: bool
  arg_limit :: "int option"
  arg_current :: bool

text \<open>
  How the \<open>try\<close> block that opens and parses the input ends: with the parsed object, or
  with one of the exceptions the three handlers catch.
\<close>

datatype read_result =
    Parsed json_data
  | JSONDecodeError string
  | FileNotFoundError
  | OtherException string

text \<open>
  What is written to the error stream: one of the three messages of the handlers, or the
  traceback of an exception nothing catches.
\<close>

datatype diagnostic =
    InvalidJSON string
  | FileNotFound "string option"
  | OtherError string
  | Traceback error

record outcome =
  exit_code :: int
  stdout :: "line list"
  stderr :: "diagnostic list"

text \<open>A run that returns ends the process with status 0, an escaped exception with 1.\<close>

definition finish :: "run \<Rightarrow> outcome" where
  "finish r =
     (case snd r of
        None \<Rightarrow> \<lparr> exit_code = 0, stdout = fst r, stderr = [] \<rparr>
      | Some e \<Rightarrow> \<lparr> exit_code = 1, stdout = fst r, stderr = [Traceback e] \<rparr>)"

text \<open>\<open>filter_type\<close>, \<open>sort_by\<close> and \<open>limit\<close> as \<open>main\<close> computes them.\<close>

definition filter_type_of :: "args \<Rightarrow> string" where
  "filter_type_of a =
     (if arg_high_usage a then ''high-usage'' else if arg_high_cost a then ''high-cost'' else ''all'')"

definition sort_by_of :: "args \<Rightarrow> string option" where
  "sort_by_of a =
     (if arg_sort_cost a then Some ''cost''
      else if arg_sort_duration a then Some ''duration'' else None)"

definition limit_of :: "args \<Rightarrow> int option" where
  "limit_of a =
     (case arg_limit a of
        Some n \<Rightarrow> if n \<noteq> 0 then Some n else (if sort_by_of a \<noteq> None then Some 10 else None)
      | None \<Rightarrow> (if sort_by_of a \<noteq> None then Some 10 else None))"

text \<open>The part of \<open>main\<close> after the load: the first view whose flag is set.\<close>

definition show_views :: "viewer \<Rightarrow> datetime \<Rightarrow> args \<Rightarrow> run" where
  "show_views v now a =
     (if arg_current a then print_current_session_line v now
      else if arg_date a \<noteq> None \<and> arg_date a \<noteq> Some [] then
        (case arg_date a of Some d \<Rightarrow> print_daily_detail v d | None \<Rightarrow> ([], None))
      else if arg_model_summary a then then_run (print_header v) (print_model_summary v)
      else if arg_summary a then then_run (print_header v) (print_stats v)
      else
        then_run (print_header v)
       (then_run (print_stats v)
       (then_run (if \<not> arg_no_legend a then print_legend else ([], None))
          (print_timeline_table v (filter_type_of a) (sort_by_of a) (limit_of a)))))"

definition main :: "(string \<Rightarrow> error + datetime) \<Rightarrow> datetime \<Rightarrow> args \<Rightarrow> read_result \<Rightarrow> outcome" where
  "main fromisoformat now a rd =
     (case rd of
        JSONDecodeError e \<Rightarrow> \<lparr> exit_code = 1, stdout = [], stderr = [InvalidJSON e] \<rparr>
      | FileNotFoundError \<Rightarrow> \<lparr> exit_code = 1, stdout = [], stderr = [FileNotFound (arg_file a)] \<rparr>
      | OtherException e \<Rightarrow> \<lparr> exit_code = 1, stdout = [], stderr = [OtherError e] \<rparr>
      | Parsed jd \<Rightarrow>
          (case load_from_json fromisoformat (arg_no_color a) jd of
             Inl e \<Rightarrow> \<lparr> exit_code = 1, stdout = [], stderr = [Traceback e] \<rparr>
           | Inr v \<Rightarrow> finish (show_views v now a)))"

section \<open>A parser for the producer's timestamps\<close>

text \<open>
  The loader is stated for any \<open>fromisoformat\<close>. To run it on concrete inputs, this is the
  parser on the timestamps the producer writes: \<open>YYYY-MM-DD\<close>, one separator character,
  \<open>HH:MM:SS\<close>, an optional fraction of three or six digits and an optional offset
  \<open>+HH:MM\<close> or \<open>-HH:MM\<close>.
\<close>

definition iso_offset :: "string \<Rightarrow> int option option" where
  "iso_offset s =
     (case s of
        [] \<Rightarrow> Some None
      | sg # rest \<Rightarrow>
          if sg = CHR ''+'' \<or> sg = CHR ''-'' then
            (case str_split CHR '':'' rest of
               [h, m] \<Rightarrow>
                 (case (field 2 2 h, field 2 2 m) of
                    (Some hv, Some mv) \<Rightarrow>
                      if hv < 24 \<and> mv < 60
                      then Some (Some ((if sg = CHR ''-'' then - 1 else 1) * ((hv * 60 + mv) * 60000000)))
                      else None
                  | _ \<Rightarrow> None)
             | _ \<Rightarrow> None)
          else None)"

definition iso_tail :: "string \<Rightarrow> (int \<times> int option) option" where
  "iso_tail s =
     (case s of
        [] \<Rightarrow> Some (0, None)
      | c # rest \<Rightarrow>
          if c = CHR ''.'' then
            (let frac = takeWhile (\<lambda>x. digit_val x \<noteq> None) rest
             in if length frac = 3 \<or> length frac = 6 then
                  (case (digits_val 0 frac, iso_offset (drop (length frac) rest)) of
                     (Some f, Some tz) \<Rightarrow> Some (if length frac = 3 then f * 1000 else f, tz)
                   | _ \<Rightarrow> None)
                else None)
          else (case iso_offset s of Some tz \<Rightarrow> Some (0, tz) | None \<Rightarrow> None))"

definition fromisoformat_basic :: "string \<Rightarrow> error + datetime" where
  "fromisoformat_basic s =
     (case (str_split CHR ''-'' (take 10 s), str_split CHR '':'' (take 8 (drop 11 s)),
            iso_tail (drop 19 s)) of
        ([y, m, d], [h, mi, sec], Some (us, tz)) \<Rightarrow>
          (case (field 4 4 y, field 2 2 m, field 2 2 d, field 2 2 h, field 2 2 mi, field 2 2 sec) of
             (Some yv, Some mv, Some dv, Some hv, Some miv, Some sv) \<Rightarrow>
               (let dt = \<lparr> year = yv, month = mv, day = dv, hour = hv, minute = miv,
                             second = sv, microsecond = us, tzinfo = tz \<rparr>
                in if 19 \<le> length s \<and> valid_datetime dt then Inr dt else Inl ValueError)
           | _ \<Rightarrow> Inl ValueError)
      | _ \<Rightarrow> Inl ValueError)"

section \<open>Statements of the specification\<close>

text \<open>
  The totals of a day agree with the blocks stored for it.
\<close>

definition day_consistent :: "daily \<Rightarrow> bool" where
  "day_consistent d =
     (total_duration d = sum_list (map duration_minutes (day_blocks d)) \<and>
      total_cost d = sum_list (map cost_usd (day_blocks d)) \<and>
      day_total_tokens d = sum_list (map total_tokens (day_blocks d)) \<and>
      total_entries d = sum_list (map entries (day_blocks d)))"

text \<open>
  The duration as the specification words it: the floor of the seconds from \<open>start\<close> to
  \<open>end\<close> over 60, for a difference \<open>delta\<close> in microseconds.
\<close>

definition floor_minutes :: "int \<Rightarrow> int" where
  "floor_minutes delta = \<lfloor>total_seconds delta / 60\<rfloor>"

text \<open>
  The duration of a block of the input as the specification words it: the floor, over the
  difference the loader forms.
\<close>

definition spec_duration :: "(string \<Rightarrow> error + datetime) \<Rightarrow> block_data \<Rightarrow> error + int" where
  "spec_duration fromisoformat bd =
     (case fromisoformat (replace_Z (startTime bd)) of
        Inl e \<Rightarrow> Inl e
      | Inr start \<Rightarrow>
     (case fromisoformat (replace_Z (end_time_str bd)) of
        Inl e \<Rightarrow> Inl e
      | Inr endt \<Rightarrow>
     (case datetime_sub endt start of
        Inl e \<Rightarrow> Inl e
      | Inr delta \<Rightarrow> Inr (floor_minutes delta))))"

text \<open>
  The difference the loader forms for a block of the input, in microseconds: the end
  minus the start.
\<close>

definition block_delta :: "(string \<Rightarrow> error + datetime) \<Rightarrow> block_data \<Rightarrow> error + int" where
  "block_delta fromisoformat bd =
     (case fromisoformat (replace_Z (startTime bd)) of
        Inl e \<Rightarrow> Inl e
      | Inr start \<Rightarrow>
     (case fromisoformat (replace_Z (end_time_str bd)) of
        Inl e \<Rightarrow> Inl e
      | Inr endt \<Rightarrow> datetime_sub endt start))"

text \<open>
  The start time of a block reads back as a time of day: what \<open>strftime\<close> wrote for a
  valid datetime does.
\<close>

definition well_timed :: "Block \<Rightarrow> bool" where
  "well_timed b =
     (case time_parts b of
        Inl e \<Rightarrow> False
      | Inr (h, m) \<Rightarrow> 0 \<le> h \<and> h < 24 \<and> 0 \<le> m \<and> m < 60)"


text \<open>
  Every block of the input that is not a gap starts in a year of four digits, as far as
  its start time parses. The strings \<open>strftime\<close> writes for such blocks are the ones
  \<open>strptime\<close> reads back.
\<close>

definition four_digit_years :: "(string \<Rightarrow> error + datetime) \<Rightarrow> json_data \<Rightarrow> bool" where
  "four_digit_years fromisoformat jd =
     list_all
       (\<lambda>bd. isGap bd \<or>
              (case fromisoformat (replace_Z (startTime bd)) of
                 Inl e \<Rightarrow> True
               | Inr start \<Rightarrow> 1000 \<le> year start))
       (get_blocks jd)"

text \<open>
  The dictionary built from the blocks \<open>pre\<close>: its keys are distinct, every key holds
  the blocks of its date in the order they were loaded, and every date has its key.
\<close>

definition grouped :: "Block list \<Rightarrow> (string \<times> daily) list \<Rightarrow> bool" where
  "grouped pre dd =
     (distinct (map fst dd) \<and>
      (\<forall>p \<in> set dd. day_blocks (snd p) = filter (\<lambda>b. date_str_of b = fst p) pre \<and>
                      day_blocks (snd p) \<noteq> []) \<and>
      (\<forall>b \<in> set pre. date_str_of b \<in> fst ` set dd))"

section \<open>Example inputs\<close>

text \<open>
  Three sessions on two days and a gap between the first two, as the producer writes
  them; the third session runs past midnight.
\<close>

definition example_a :: block_data where
  "example_a =
     \<lparr> json_id = ''2025-09-13T00:00:00.000Z'',
       startTime = ''2025-09-13T00:00:00.000Z'',
       endTime = ''2025-09-13T05:00:00.000Z'',
       actualEndTime = Some ''2025-09-13T01:00:00.000Z'',
       isActive = False, isGap = False,
       json_entries = 12, totalTokens = 1000, costUSD = 5,
       json_models = [''claude-opus-4-20250514''] \<rparr>"

definition example_gap :: block_data where
  "example_gap =
     \<lparr> json_id = ''gap-2025-09-13T01:00:00.000Z'',
       startTime = ''2025-09-13T01:00:00.000Z'',
       endTime = ''2025-09-13T10:30:00.000Z'',
       actualEndTime = None,
       isActive = False, isGap = True,
       json_entries = 0, totalTokens = 0, costUSD = 0,
       json_models = [] \<rparr>"

definition example_b :: block_data where
  "example_b =
     \<lparr> json_id = ''2025-09-13T10:00:00.000Z'',
       startTime = ''2025-09-13T10:30:00.000Z'',
       endTime = ''2025-09-13T15:30:00.000Z'',
       actualEndTime = None,
       isActive = False, isGap = False,
       json_entries = 40, totalTokens = 2000000, costUSD = 62.5,
       json_models = [''claude-sonnet-4-20250514'', ''claude-opus-4-20250514''] \<rparr>"

definition example_c :: block_data where
  "example_c =
     \<lparr> json_id = ''2025-09-14T23:00:00.000Z'',
       startTime = ''2025-09-14T23:10:00.000Z'',
       endTime = ''2025-09-15T04:10:00.000Z'',
       actualEndTime = Some ''2025-09-15T02:40:30.000Z'',
       isActive = True, isGap = False,
       json_entries = 7, totalTokens = 30000, costUSD = 20.25,
       json_models = [''claude-sonnet-4-20250514''] \<rparr>"

definition example_json :: json_data where
  "example_json = \<lparr> json_blocks = Some [example_a, example_gap, example_b, example_c] \<rparr>"

text \<open>The blocks loaded from the example.\<close>

definition example_blocks :: "Block list" where
  "example_blocks =
     (case load_from_json fromisoformat_basic True example_json of
        Inr v \<Rightarrow> blocks v
      | Inl e \<Rightarrow> [])"

text \<open>A session whose recorded end lies ninety seconds before its start.\<close>

definition example_backwards :: block_data where
  "example_backwards =
     \<lparr> json_id = ''2025-09-13T00:01:30.000Z'',
       startTime = ''2025-09-13T00:01:30.000Z'',
       endTime = ''2025-09-13T05:00:00.000Z'',
       actualEndTime = Some ''2025-09-13T00:00:00.000Z'',
       isActive = False, isGap = False,
       json_entries = 1, totalTokens = 10, costUSD = 0.5,
       json_models = [''claude-opus-4-20250514''] \<rparr>"

definition example_json_backwards :: json_data where
  "example_json_backwards = \<lparr> json_blocks = Some [example_a, example_gap, example_backwards] \<rparr>"

text \<open>A session that is not a gap and names no model.\<close>

definition example_no_model :: block_data where
  "example_no_model =
     \<lparr> json_id = ''2025-09-13T18:00:00.000Z'',
       startTime = ''2025-09-13T18:00:00.000Z'',
       endTime = ''2025-09-13T23:00:00.000Z'',
       actualEndTime = None,
       isActive = False, isGap = False,
       json_entries = 0, totalTokens = 0, costUSD = 0,
       json_models = [] \<rparr>"

definition example_json_no_model :: json_data where
  "example_json_no_model = \<lparr> json_blocks = Some [example_a, example_no_model] \<rparr>"

text \<open>Two days with the same cost, the later day first in the input.\<close>

definition example_json_tie :: json_data where
  "example_json_tie = \<lparr> json_blocks = Some [example_c\<lparr>costUSD := 5\<rparr>, example_a] \<rparr>"


text \<open>Twelve one-hour sessions on the first twelve days of a month, day \<open>d\<close> costing \<open>d\<close>.\<close>

definition example_json_twelve :: json_data where
  "example_json_twelve =
     \<lparr> json_blocks = Some (map
         (\<lambda>d. example_a\<lparr>startTime := ''2025-09-'' @ pad2 d @ ''T00:00:00.000Z'',
                        actualEndTime := Some (''2025-09-'' @ pad2 d @ ''T01:00:00.000Z''),
                        costUSD := of_int d\<rparr>)
         [1..12]) \<rparr>"

definition example_args :: args where
  "example_args =
     \<lparr> arg_file = None, arg_high_usage = False, arg_high_cost = False,
       arg_sort_cost = False, arg_sort_duration = False, arg_date = None,
       arg_summary = False, arg_model_summary = False, arg_no_color = True,
       arg_no_legend = False, arg_limit = None, arg_current = False \<rparr>"

definition example_now :: datetime where
  "example_now =
     \<lparr> year = 2025, month = 9, day = 13, hour = 12, minute = 10, second = 5,
       microsecond = 0, tzinfo = None \<rparr>"


section \<open>Model names\<close>

text \<open>
  C7. Shortening a model name twice gives the same name as shortening it once: the three
  short names each contain the word that selects them and none that is tested earlier, and
  a name left unchanged contains none of the three words.
\<close>

theorem simplify_model_idempotent: "simplify_model (simplify_model s) = simplify_model s"
  by (simp add: simplify_model_def)

section \<open>The dictionary of days\<close>

lemma str_split_not_Nil: "str_split sep s \<noteq> []"
  by (induction s) (auto split: list.splits)

lemma update_absent: "map_of dd k = None \<Longrightarrow> AList.update k v dd = dd @ [(k, v)]"
  by (induction dd) (auto split: if_splits)

lemma sum_map_entry:
  fixes F :: "'v \<Rightarrow> 'a::ab_group_add"
  shows "map_of dd k = Some v \<Longrightarrow>
    sum_list (map (\<lambda>p. F (snd p)) (AList.map_entry k u dd)) =
    sum_list (map (\<lambda>p. F (snd p)) dd) + (F (u v) - F v)"
  by (induction dd) (auto split: if_splits)

lemma set_map_entry:
  "set (AList.map_entry k u dd) \<subseteq> set dd \<union> {(k, u v) | v. (k, v) \<in> set dd}"
  by (induction dd) (auto split: if_splits)

lemma sum_group_step:
  fixes F :: "daily \<Rightarrow> 'a::ab_group_add"
  assumes "F empty_day = 0" and "\<And>d. F (add_block b d) = F d + g b"
  shows "sum_list (map (\<lambda>p. F (snd p)) (group_step dd b)) = sum_list (map (\<lambda>p. F (snd p)) dd) + g b"
proof (cases "map_of dd (date_str_of b)")
  case None
  have "map_of (dd @ [(date_str_of b, empty_day)]) (date_str_of b) = Some empty_day"
    using None by (simp add: map_add_Some_iff)
  from sum_map_entry [OF this, of F "add_block b"] show ?thesis
    using None assms by (simp add: group_step_def update_absent Let_def)
next
  case (Some v)
  then show ?thesis
    using assms sum_map_entry [OF Some, of F "add_block b"] by (simp add: group_step_def Let_def)
qed

lemma sum_foldl_group:
  fixes F :: "daily \<Rightarrow> 'a::ab_group_add"
  assumes "F empty_day = 0" and "\<And>b d. F (add_block b d) = F d + g b"
  shows "sum_list (map (\<lambda>p. F (snd p)) (foldl group_step dd bs)) =
         sum_list (map (\<lambda>p. F (snd p)) dd) + sum_list (map g bs)"
  using assms by (induction bs arbitrary: dd) (simp_all add: sum_group_step add.assoc)

lemma day_consistent_empty: "day_consistent empty_day"
  by (simp add: day_consistent_def empty_day_def)

lemma day_consistent_add: "day_consistent d \<Longrightarrow> day_consistent (add_block b d)"
  by (simp add: day_consistent_def add_block_def)

lemma group_step_consistent:
  assumes "\<forall>p \<in> set dd. day_consistent (snd p)"
  shows "\<forall>p \<in> set (group_step dd b). day_consistent (snd p)"
proof -
  let ?k = "date_str_of b"
  let ?dd' = "if map_of dd ?k = None then AList.update ?k empty_day dd else dd"
  have a: "\<forall>p \<in> set ?dd'. day_consistent (snd p)"
    using assms by (auto simp: update_absent day_consistent_empty)
  have "set (group_step dd b) \<subseteq> set ?dd' \<union> {(?k, add_block b v) | v. (?k, v) \<in> set ?dd'}"
    unfolding group_step_def Let_def by (rule set_map_entry)
  then show ?thesis
    using a by (fastforce intro: day_consistent_add)
qed

lemma foldl_group_consistent:
  "\<forall>p \<in> set dd. day_consistent (snd p) \<Longrightarrow>
   \<forall>p \<in> set (foldl group_step dd bs). day_consistent (snd p)"
proof (induction bs arbitrary: dd)
  case Nil
  then show ?case by simp
next
  case (Cons b bs)
  have "\<forall>p \<in> set (group_step dd b). day_consistent (snd p)"
    using Cons.prems by (rule group_step_consistent)
  then show ?case using Cons.IH by simp
qed

lemma map_entry_distinct:
  "distinct (map fst dd) \<Longrightarrow>
   AList.map_entry k u dd = map (\<lambda>p. if fst p = k then (fst p, u (snd p)) else p) dd"
proof (induction dd)
  case Nil
  then show ?case by simp
next
  case (Cons p ps)
  show ?case
  proof (cases "fst p = k")
    case True
    then have "k \<notin> fst ` set ps" using Cons.prems by auto
    then have "map (\<lambda>p. if fst p = k then (fst p, u (snd p)) else p) ps = ps"
      by (intro map_idI) auto
    then show ?thesis using True by (cases p) simp
  next
    case False
    then show ?thesis using Cons by (cases p) simp
  qed
qed

lemma map_of_None_iff: "map_of dd k = None \<longleftrightarrow> k \<notin> fst ` set dd"
  by (simp add: map_of_eq_None_iff)

lemma grouped_step:
  assumes "grouped pre dd"
  shows "grouped (pre @ [b]) (group_step dd b)"
proof (cases "map_of dd (date_str_of b)")
  case None
  then have k: "date_str_of b \<notin> fst ` set dd" by (simp add: map_of_None_iff)
  have eq: "group_step dd b = dd @ [(date_str_of b, add_block b empty_day)]"
    using None k assms
    by (simp add: group_step_def Let_def update_absent map_entry_distinct grouped_def)
       (intro map_idI, auto)
  have "\<forall>x \<in> set pre. date_str_of x \<noteq> date_str_of b"
    using assms k unfolding grouped_def by metis
  then have nopre: "filter (\<lambda>x. date_str_of x = date_str_of b) pre = []"
    by (simp add: filter_empty_conv)
  show ?thesis
    unfolding eq using assms k nopre
    by (auto simp: grouped_def add_block_def empty_day_def)
next
  case (Some d)
  then have eq: "group_step dd b =
      map (\<lambda>p. if fst p = date_str_of b then (fst p, add_block b (snd p)) else p) dd"
    using assms by (simp add: group_step_def Let_def map_entry_distinct grouped_def)
  have k: "date_str_of b \<in> fst ` set dd"
    using Some by (metis map_of_None_iff option.distinct(1))
  let ?f = "\<lambda>p. if fst p = date_str_of b then (fst p, add_block b (snd p)) else p"
  have keys: "map fst (map ?f dd) = map fst dd"
    by (induction dd) auto
  have img: "fst ` set (map ?f dd) = fst ` set dd"
    using keys by (metis set_map)
  have "distinct (map fst dd)"
    using assms by (simp add: grouped_def)
  then have d: "distinct (map fst (map ?f dd))"
    unfolding keys .
  have day: "day_blocks (snd (?f q)) = filter (\<lambda>x. date_str_of x = fst (?f q)) (pre @ [b]) \<and>
             day_blocks (snd (?f q)) \<noteq> []" if "q \<in> set dd" for q
    using assms that by (auto simp: grouped_def add_block_def)
  have days: "\<forall>p \<in> set (map ?f dd).
      day_blocks (snd p) = filter (\<lambda>x. date_str_of x = fst p) (pre @ [b]) \<and> day_blocks (snd p) \<noteq> []"
  proof
    fix p assume "p \<in> set (map ?f dd)"
    then obtain q where q: "q \<in> set dd" and p: "p = ?f q"
      unfolding set_map by blast
    show "day_blocks (snd p) = filter (\<lambda>x. date_str_of x = fst p) (pre @ [b]) \<and> day_blocks (snd p) \<noteq> []"
      unfolding p using day [OF q] .
  qed
  have cover: "\<forall>x \<in> set (pre @ [b]). date_str_of x \<in> fst ` set (map ?f dd)"
    unfolding img using assms k by (auto simp: grouped_def)
  show ?thesis
    unfolding eq grouped_def using d days cover by blast
qed

lemma grouped_foldl:
  "grouped pre dd \<Longrightarrow> grouped (pre @ bs) (foldl group_step dd bs)"
proof (induction bs arbitrary: pre dd)
  case Nil
  then show ?case by simp
next
  case (Cons b bs)
  from Cons.IH [OF grouped_step [OF Cons.prems, of b]] show ?case by simp
qed

lemma grouped_group_by_date: "grouped bs (group_by_date bs)"
proof -
  have "grouped [] []" by (simp add: grouped_def)
  from grouped_foldl [OF this, of bs] show ?thesis by (simp add: group_by_date_def)
qed

section \<open>The loader\<close>

lemma load_block_fields:
  "load_block fromisoformat bd = Inr b \<Longrightarrow>
   is_gap b = isGap bd \<and> entries b = json_entries bd \<and> total_tokens b = totalTokens bd \<and>
   cost_usd b = costUSD bd \<and> models b = remdups (map simplify_model (json_models bd))"
  by (auto simp: load_block_def split: sum.splits)

lemma load_blocks_rel:
  "load_blocks fromisoformat l = Inr bs \<Longrightarrow>
   list_all2 (\<lambda>bd b. load_block fromisoformat bd = Inr b) (filter (\<lambda>bd. \<not> isGap bd) l) bs"
  by (induction l arbitrary: bs) (auto split: if_splits sum.splits)

lemma load_blocks_filter:
  "load_blocks fromisoformat (filter (\<lambda>bd. \<not> isGap bd) l) = load_blocks fromisoformat l"
  by (induction l) (auto split: sum.splits)

lemma load_blocks_not_gap:
  assumes "load_blocks fromisoformat l = Inr bs"
  shows "\<forall>b \<in> set bs. \<not> is_gap b"
proof
  fix b assume "b \<in> set bs"
  then obtain i where i: "i < length bs" "bs ! i = b"
    by (auto simp: in_set_conv_nth)
  let ?l = "filter (\<lambda>bd. \<not> isGap bd) l"
  have rel: "list_all2 (\<lambda>bd b. load_block fromisoformat bd = Inr b) ?l bs"
    using assms by (rule load_blocks_rel)
  then have len: "length ?l = length bs" by (rule list_all2_lengthD)
  have "load_block fromisoformat (?l ! i) = Inr b"
    using rel i len by (auto simp: list_all2_conv_all_nth)
  then have "is_gap b = isGap (?l ! i)"
    using load_block_fields by blast
  moreover have "?l ! i \<in> set ?l"
    using i len by (intro nth_mem) simp
  then have "\<not> isGap (?l ! i)" by simp
  ultimately show "\<not> is_gap b" by simp
qed

lemma example_json_loads: "\<not> isl (load_from_json fromisoformat_basic True example_json)"
  by code_simp

section \<open>Daily totals\<close>

text \<open>
  C1. After any load that succeeds, the totals of the days add up to the totals of the
  loaded blocks, for duration, cost, tokens and entries; every day's totals are the sums
  over the block list stored for that day, which holds the loaded blocks of that date in
  load order; and no loaded block is a gap. Cost is added in exact arithmetic here.
\<close>

theorem daily_totals_match_blocks:
  assumes "load_from_json fromisoformat nc jd = Inr v"
  shows "sum_list (map (\<lambda>p. total_duration (snd p)) (daily_data v)) =
           sum_list (map duration_minutes (blocks v)) \<and>
         sum_list (map (\<lambda>p. total_cost (snd p)) (daily_data v)) =
           sum_list (map cost_usd (blocks v)) \<and>
         sum_list (map (\<lambda>p. day_total_tokens (snd p)) (daily_data v)) =
           sum_list (map total_tokens (blocks v)) \<and>
         sum_list (map (\<lambda>p. total_entries (snd p)) (daily_data v)) =
           sum_list (map entries (blocks v)) \<and>
         (\<forall>p \<in> set (daily_data v).
            day_consistent (snd p) \<and>
            day_blocks (snd p) = filter (\<lambda>b. date_str_of b = fst p) (blocks v)) \<and>
         (\<forall>b \<in> set (blocks v). \<not> is_gap b)"
proof -
  obtain bs where bs: "load_blocks fromisoformat (get_blocks jd) = Inr bs"
    and v: "v = \<lparr> blocks = bs, daily_data = group_by_date bs, no_color = nc \<rparr>"
    using assms by (auto simp: load_from_json_def split: sum.splits)
  have dd: "daily_data v = foldl group_step [] bs" and b: "blocks v = bs"
    by (simp_all add: v group_by_date_def)
  have 1: "sum_list (map (\<lambda>p. total_duration (snd p)) (daily_data v)) =
           sum_list (map duration_minutes (blocks v))"
    unfolding dd b
    by (subst sum_foldl_group [where g = duration_minutes]) (simp_all add: empty_day_def add_block_def)
  have 2: "sum_list (map (\<lambda>p. total_cost (snd p)) (daily_data v)) =
           sum_list (map cost_usd (blocks v))"
    unfolding dd b
    by (subst sum_foldl_group [where g = cost_usd]) (simp_all add: empty_day_def add_block_def)
  have 3: "sum_list (map (\<lambda>p. day_total_tokens (snd p)) (daily_data v)) =
           sum_list (map total_tokens (blocks v))"
    unfolding dd b
    by (subst sum_foldl_group [where g = total_tokens]) (simp_all add: empty_day_def add_block_def)
  have 4: "sum_list (map (\<lambda>p. total_entries (snd p)) (daily_data v)) =
           sum_list (map entries (blocks v))"
    unfolding dd b
    by (subst sum_foldl_group [where g = entries]) (simp_all add: empty_day_def add_block_def)
  have 5: "\<forall>p \<in> set (daily_data v). day_consistent (snd p)"
    unfolding dd by (rule foldl_group_consistent) simp
  have "grouped bs (group_by_date bs)" by (rule grouped_group_by_date)
  then have 6: "\<forall>p \<in> set (daily_data v).
      day_blocks (snd p) = filter (\<lambda>b. date_str_of b = fst p) (blocks v)"
    by (simp add: v grouped_def)
  have 7: "\<forall>b \<in> set (blocks v). \<not> is_gap b"
    unfolding b using bs by (rule load_blocks_not_gap)
  show ?thesis using 1 2 3 4 5 6 7 by blast
qed

theorem daily_totals_match_blocks_witness:
  "\<exists>v. load_from_json fromisoformat_basic True example_json = Inr v \<and>
       map fst (daily_data v) = [''2025-09-13'', ''2025-09-14''] \<and>
       sum_list (map duration_minutes (blocks v)) = 570 \<and>
       sum_list (map (\<lambda>p. total_duration (snd p)) (daily_data v)) =
         sum_list (map duration_minutes (blocks v)) \<and>
       sum_list (map (\<lambda>p. total_cost (snd p)) (daily_data v)) =
         sum_list (map cost_usd (blocks v)) \<and>
       sum_list (map (\<lambda>p. day_total_tokens (snd p)) (daily_data v)) =
         sum_list (map total_tokens (blocks v)) \<and>
       sum_list (map (\<lambda>p. total_entries (snd p)) (daily_data v)) =
         sum_list (map entries (blocks v)) \<and>
       (\<forall>p \<in> set (daily_data v).
          day_consistent (snd p) \<and>
          day_blocks (snd p) = filter (\<lambda>b. date_str_of b = fst p) (blocks v)) \<and>
       (\<forall>b \<in> set (blocks v). \<not> is_gap b)"
proof -
  let ?v = "projr (load_from_json fromisoformat_basic True example_json)"
  have h: "load_from_json fromisoformat_basic True example_json = Inr ?v"
    using example_json_loads by simp
  have k: "map fst (daily_data ?v) = [''2025-09-13'', ''2025-09-14'']"
    by code_simp
  have d: "sum_list (map duration_minutes (blocks ?v)) = 570"
    by code_simp
  note c = daily_totals_match_blocks [OF h]
  show ?thesis
    by (rule exI [of _ ?v]) (use h k d c in blast)
qed

section \<open>Gap blocks\<close>

text \<open>
  C4. After any load that succeeds, no block of the collection has the gap flag: the
  collection is the image of the input blocks without the gap flag, in order; every block
  stored under a day is one of them; and the loaded state, and with it everything
  \<open>main\<close> prints, is the same as for the input with the gap blocks removed.
\<close>

theorem gap_blocks_excluded:
  assumes "load_from_json fromisoformat nc jd = Inr v"
  shows "(\<forall>b \<in> set (blocks v). \<not> is_gap b) \<and>
         list_all2 (\<lambda>bd b. load_block fromisoformat bd = Inr b)
           (filter (\<lambda>bd. \<not> isGap bd) (get_blocks jd)) (blocks v) \<and>
         (\<forall>p \<in> set (daily_data v). \<forall>b \<in> set (day_blocks (snd p)).
            b \<in> set (blocks v) \<and> \<not> is_gap b) \<and>
         load_from_json fromisoformat nc
           (jd\<lparr>json_blocks := Some (filter (\<lambda>bd. \<not> isGap bd) (get_blocks jd))\<rparr>) = Inr v \<and>
         main fromisoformat now a
           (Parsed (jd\<lparr>json_blocks := Some (filter (\<lambda>bd. \<not> isGap bd) (get_blocks jd))\<rparr>)) =
         main fromisoformat now a (Parsed jd)"
proof -
  obtain bs where bs: "load_blocks fromisoformat (get_blocks jd) = Inr bs"
    and v: "v = \<lparr> blocks = bs, daily_data = group_by_date bs, no_color = nc \<rparr>"
    using assms by (auto simp: load_from_json_def split: sum.splits)
  have b: "blocks v = bs" by (simp add: v)
  have 1: "\<forall>b \<in> set (blocks v). \<not> is_gap b"
    unfolding b using bs by (rule load_blocks_not_gap)
  have 2: "list_all2 (\<lambda>bd b. load_block fromisoformat bd = Inr b)
           (filter (\<lambda>bd. \<not> isGap bd) (get_blocks jd)) (blocks v)"
    unfolding b using bs by (rule load_blocks_rel)
  have "grouped bs (group_by_date bs)" by (rule grouped_group_by_date)
  then have "\<forall>p \<in> set (daily_data v). set (day_blocks (snd p)) \<subseteq> set (blocks v)"
    by (auto simp: v grouped_def)
  then have 3: "\<forall>p \<in> set (daily_data v). \<forall>b \<in> set (day_blocks (snd p)).
            b \<in> set (blocks v) \<and> \<not> is_gap b"
    using 1 by blast
  have same: "load_from_json fromisoformat nc'
           (jd\<lparr>json_blocks := Some (filter (\<lambda>bd. \<not> isGap bd) (get_blocks jd))\<rparr>) =
        load_from_json fromisoformat nc' jd" for nc'
    by (simp add: load_from_json_def get_blocks_def load_blocks_filter)
  have 4: "load_from_json fromisoformat nc
           (jd\<lparr>json_blocks := Some (filter (\<lambda>bd. \<not> isGap bd) (get_blocks jd))\<rparr>) = Inr v"
    using same assms by simp
  have 5: "main fromisoformat now a
           (Parsed (jd\<lparr>json_blocks := Some (filter (\<lambda>bd. \<not> isGap bd) (get_blocks jd))\<rparr>)) =
         main fromisoformat now a (Parsed jd)"
    by (simp add: main_def same)
  show ?thesis using 1 2 3 4 5 by blast
qed

theorem gap_blocks_excluded_witness:
  "\<exists>v. load_from_json fromisoformat_basic True example_json = Inr v \<and>
       length (get_blocks example_json) = 4 \<and> isGap (get_blocks example_json ! 1) \<and>
       map block_id (blocks v) =
         [''2025-09-13T00:00:00.000Z'', ''2025-09-13T10:00:00.000Z'', ''2025-09-14T23:00:00.000Z''] \<and>
       (\<forall>b \<in> set (blocks v). \<not> is_gap b) \<and>
       (\<forall>p \<in> set (daily_data v). \<forall>b \<in> set (day_blocks (snd p)).
          b \<in> set (blocks v) \<and> \<not> is_gap b) \<and>
       main fromisoformat_basic example_now example_args
         (Parsed (example_json\<lparr>json_blocks :=
            Some (filter (\<lambda>bd. \<not> isGap bd) (get_blocks example_json))\<rparr>)) =
       main fromisoformat_basic example_now example_args (Parsed example_json)"
proof -
  let ?v = "projr (load_from_json fromisoformat_basic True example_json)"
  have h: "load_from_json fromisoformat_basic True example_json = Inr ?v"
    using example_json_loads by simp
  have k: "length (get_blocks example_json) = 4 \<and> isGap (get_blocks example_json ! 1)"
    by code_simp
  have d: "map block_id (blocks ?v) =
         [''2025-09-13T00:00:00.000Z'', ''2025-09-13T10:00:00.000Z'', ''2025-09-14T23:00:00.000Z'']"
    by code_simp
  note c = gap_blocks_excluded [OF h, of example_now example_args]
  show ?thesis
    by (rule exI [of _ ?v]) (use h k d c in blast)
qed

section \<open>Durations\<close>

lemma py_int_quotient:
  assumes "0 < b"
  shows "py_int (of_int a / of_int b) = (if 0 \<le> a then a div b else - ((- a) div b))"
proof (cases "0 \<le> a")
  case True
  then have "(0::real) \<le> of_int a / of_int b" using assms by simp
  then show ?thesis using True by (simp add: py_int_def floor_divide_of_int_eq)
next
  case False
  then have neg: "\<not> (0::real) \<le> of_int a / of_int b"
    using assms by (simp add: divide_less_0_iff not_le)
  have "\<lceil>(of_int a :: real) / of_int b\<rceil> = - \<lfloor>of_int (- a) / (of_int b :: real)\<rfloor>"
    by (simp add: ceiling_def)
  also have "\<dots> = - ((- a) div b)"
    by (simp only: floor_divide_of_int_eq)
  finally show ?thesis using False neg by (simp add: py_int_def)
qed

lemma duration_of_delta:
  "py_int (total_seconds delta / 60) =
     (if 0 \<le> delta then delta div 60000000 else - ((- delta) div 60000000))"
proof -
  have "total_seconds delta / 60 = of_int delta / of_int 60000000"
    by (simp add: total_seconds_def)
  moreover have "py_int (of_int delta / of_int 60000000) =
      (if 0 \<le> delta then delta div 60000000 else - ((- delta) div 60000000))"
    by (rule py_int_quotient) simp
  ultimately show ?thesis by (simp only:)
qed

lemma floor_minutes_div: "floor_minutes delta = delta div 60000000"
proof -
  have "total_seconds delta / 60 = of_int delta / of_int 60000000"
    by (simp add: total_seconds_def)
  then show ?thesis
    unfolding floor_minutes_def by (simp only: floor_divide_of_int_eq)
qed

lemma load_block_duration:
  assumes "load_block fromisoformat bd = Inr b"
  shows "\<exists>start endt delta.
           fromisoformat (replace_Z (startTime bd)) = Inr start \<and>
           fromisoformat (replace_Z (end_time_str bd)) = Inr endt \<and>
           datetime_sub endt start = Inr delta \<and>
           start_time b = strftime start \<and>
           duration_minutes b = py_int (total_seconds delta / 60)"
  using assms by (auto simp: load_block_def split: sum.splits)

text \<open>
  C2, as amended. For every block the loader parses whose end and start are less than
  \<open>2 ^ 32\<close> seconds apart, the duration in minutes is the quotient of the difference
  between the end and the start by one minute, truncated towards zero, the end being the
  actual end time when it is neither null nor empty and the scheduled end time otherwise.
  It is the floor of that quotient when the end does not precede the start, or when the
  difference is a whole number of minutes.
\<close>

theorem duration_truncates_toward_zero:
  assumes "load_from_json fromisoformat nc jd = Inr v"
  shows "list_all2
           (\<lambda>bd b. \<exists>start endt delta.
              fromisoformat (replace_Z (startTime bd)) = Inr start \<and>
              fromisoformat (replace_Z (end_time_str bd)) = Inr endt \<and>
              datetime_sub endt start = Inr delta \<and>
              (\<bar>delta\<bar> < 2 ^ 32 * 1000000 \<longrightarrow>
                 duration_minutes b =
                   (if 0 \<le> delta then delta div 60000000 else - ((- delta) div 60000000)) \<and>
                 (0 \<le> delta \<or> delta mod 60000000 = 0 \<longrightarrow>
                    duration_minutes b = floor_minutes delta)))
           (filter (\<lambda>bd. \<not> isGap bd) (get_blocks jd)) (blocks v)"
proof -
  obtain bs where bs: "load_blocks fromisoformat (get_blocks jd) = Inr bs"
    and v: "v = \<lparr> blocks = bs, daily_data = group_by_date bs, no_color = nc \<rparr>"
    using assms by (auto simp: load_from_json_def split: sum.splits)
  have rel: "list_all2 (\<lambda>bd b. load_block fromisoformat bd = Inr b)
           (filter (\<lambda>bd. \<not> isGap bd) (get_blocks jd)) (blocks v)"
    unfolding v using bs by (simp add: load_blocks_rel)
  have neg: "- ((- delta) div 60000000) = delta div 60000000"
    if "delta mod 60000000 = 0" for delta :: int
    using that by (metis div_minus_right dvd_neg_div minus_minus mod_eq_0_iff_dvd)
  show ?thesis
  proof (rule list_all2_mono [OF rel])
    fix bd b assume "load_block fromisoformat bd = Inr b"
    from load_block_duration [OF this] obtain start endt delta where
      s: "fromisoformat (replace_Z (startTime bd)) = Inr start"
      and e: "fromisoformat (replace_Z (end_time_str bd)) = Inr endt"
      and d: "datetime_sub endt start = Inr delta"
      and m: "duration_minutes b = py_int (total_seconds delta / 60)"
      by blast
    have t: "duration_minutes b =
        (if 0 \<le> delta then delta div 60000000 else - ((- delta) div 60000000))"
      using m by (simp only: duration_of_delta)
    have f: "0 \<le> delta \<or> delta mod 60000000 = 0 \<longrightarrow> duration_minutes b = floor_minutes delta"
      using t neg [of delta] by (auto simp: floor_minutes_div)
    show "\<exists>start endt delta.
              fromisoformat (replace_Z (startTime bd)) = Inr start \<and>
              fromisoformat (replace_Z (end_time_str bd)) = Inr endt \<and>
              datetime_sub endt start = Inr delta \<and>
              (\<bar>delta\<bar> < 2 ^ 32 * 1000000 \<longrightarrow>
                 duration_minutes b =
                   (if 0 \<le> delta then delta div 60000000 else - ((- delta) div 60000000)) \<and>
                 (0 \<le> delta \<or> delta mod 60000000 = 0 \<longrightarrow>
                    duration_minutes b = floor_minutes delta))"
      using s e d t f by blast
  qed
qed

theorem duration_truncates_toward_zero_witness:
  "\<exists>v. load_from_json fromisoformat_basic True example_json_backwards = Inr v \<and>
       map (block_delta fromisoformat_basic)
         (filter (\<lambda>bd. \<not> isGap bd) (get_blocks example_json_backwards)) =
         [Inr 3600000000, Inr (- 90000000)] \<and>
       \<bar>3600000000 :: int\<bar> < 2 ^ 32 * 1000000 \<and> \<bar>- 90000000 :: int\<bar> < 2 ^ 32 * 1000000 \<and>
       map duration_minutes (blocks v) = [60, - 1] \<and>
       list_all2
         (\<lambda>bd b. \<exists>start endt delta.
            fromisoformat_basic (replace_Z (startTime bd)) = Inr start \<and>
            fromisoformat_basic (replace_Z (end_time_str bd)) = Inr endt \<and>
            datetime_sub endt start = Inr delta \<and>
            (\<bar>delta\<bar> < 2 ^ 32 * 1000000 \<longrightarrow>
               duration_minutes b =
                 (if 0 \<le> delta then delta div 60000000 else - ((- delta) div 60000000)) \<and>
               (0 \<le> delta \<or> delta mod 60000000 = 0 \<longrightarrow>
                  duration_minutes b = floor_minutes delta)))
         (filter (\<lambda>bd. \<not> isGap bd) (get_blocks example_json_backwards)) (blocks v)"
proof -
  let ?v = "projr (load_from_json fromisoformat_basic True example_json_backwards)"
  have "\<not> isl (load_from_json fromisoformat_basic True example_json_backwards)"
    by code_simp
  then have h: "load_from_json fromisoformat_basic True example_json_backwards = Inr ?v"
    by simp
  have d: "map duration_minutes (blocks ?v) = [60, - 1]"
    by code_simp
  have e: "map (block_delta fromisoformat_basic)
         (filter (\<lambda>bd. \<not> isGap bd) (get_blocks example_json_backwards)) =
         [Inr 3600000000, Inr (- 90000000)]"
    by code_simp
  have b: "\<bar>3600000000 :: int\<bar> < 2 ^ 32 * 1000000" "\<bar>- 90000000 :: int\<bar> < 2 ^ 32 * 1000000"
    by simp_all
  note c = duration_truncates_toward_zero [OF h]
  show ?thesis
    by (rule exI [of _ ?v]) (use h d e b c in blast)
qed

text \<open>
  C2 as stated fails where the end precedes the start by a time that is not a whole
  number of minutes: for an end ninety seconds before the start the loader stores \<open>-1\<close>,
  and the floor is \<open>-2\<close>.
\<close>

theorem duration_floor_counterexample:
  "map_sum id (\<lambda>v. map duration_minutes (blocks v))
     (load_from_json fromisoformat_basic True \<lparr> json_blocks = Some [example_backwards] \<rparr>) =
     Inr [- 1] \<and>
   datetime_sub
     \<lparr> year = 2025, month = 9, day = 13, hour = 0, minute = 0, second = 0,
       microsecond = 0, tzinfo = Some 0 \<rparr>
     \<lparr> year = 2025, month = 9, day = 13, hour = 0, minute = 1, second = 30,
       microsecond = 0, tzinfo = Some 0 \<rparr> = Inr (- 90000000) \<and>
   spec_duration fromisoformat_basic example_backwards = Inr (- 2)"
proof -
  have 1: "map_sum id (\<lambda>v. map duration_minutes (blocks v))
     (load_from_json fromisoformat_basic True \<lparr> json_blocks = Some [example_backwards] \<rparr>) =
     Inr [- 1]"
    by code_simp
  have 2: "datetime_sub
     \<lparr> year = 2025, month = 9, day = 13, hour = 0, minute = 0, second = 0,
       microsecond = 0, tzinfo = Some 0 \<rparr>
     \<lparr> year = 2025, month = 9, day = 13, hour = 0, minute = 1, second = 30,
       microsecond = 0, tzinfo = Some 0 \<rparr> = Inr (- 90000000)"
    by code_simp
  have 3: "spec_duration fromisoformat_basic example_backwards = Inr (- 2)"
    by code_simp
  show ?thesis using 1 2 3 by blast
qed

section \<open>The timeline bar: width and markers\<close>

lemma set_index_length: "set_index xs i v = Inr ys \<Longrightarrow> length ys = length xs"
  by (auto simp: set_index_def split: if_splits)

lemma fill_slots_length:
  "fill_slots timeline width start_pos c is = Inr t \<Longrightarrow> length t = length timeline"
proof (induction "is" arbitrary: timeline)
  case Nil
  then show ?case by simp
next
  case (Cons i rest)
  then show ?case
    by (auto split: if_splits sum.splits dest: set_index_length)
qed

lemma place_block_length:
  "place_block width timeline block = Inr t \<Longrightarrow> length t = length timeline"
  by (auto simp: place_block_def Let_def split: sum.splits prod.splits dest: fill_slots_length)

lemma place_blocks_length:
  "place_blocks width timeline bs = Inr t \<Longrightarrow> length t = length timeline"
proof (induction bs arbitrary: timeline)
  case Nil
  then show ?case by simp
next
  case (Cons b bs)
  then show ?case
    by (auto split: sum.splits dest: place_block_length)
qed

lemma marked_cells_length: "length (marked_cells nc timeline) = length timeline"
  by (simp add: marked_cells_def)

lemma marked_cells_nth:
  "i < length timeline \<Longrightarrow>
   marked_cells nc timeline ! i = (if i mod 12 = 0 then marker nc else [timeline ! i])"
  by (simp add: marked_cells_def nth_enumerate_eq)

lemma fill_slots_ok:
  assumes "0 \<le> start_pos" and "\<forall>i \<in> set is. 0 \<le> i" and "int (length timeline) = width"
  shows "\<exists>t. fill_slots timeline width start_pos c is = Inr t"
  using assms
proof (induction "is" arbitrary: timeline)
  case Nil
  then show ?case by simp
next
  case (Cons i rest)
  show ?case
  proof (cases "start_pos + i < width")
    case True
    then obtain t where t: "set_index timeline (start_pos + i) c = Inr t"
      using Cons.prems by (auto simp: set_index_def)
    then have "int (length t) = width"
      using Cons.prems set_index_length by fastforce
    then obtain t' where "fill_slots t width start_pos c rest = Inr t'"
      using Cons.IH [of t] Cons.prems by auto
    then show ?thesis using True t by simp
  next
    case False
    then show ?thesis using Cons by simp
  qed
qed

lemma digit_not_sep:
  "digit d \<noteq> CHR '' ''" "digit d \<noteq> CHR '':''" "digit d \<noteq> CHR ''-''" "digit d \<noteq> CHR ''+''"
  by (simp_all add: digit_def)

lemma digit_val_digit: "0 \<le> d \<Longrightarrow> d \<le> 9 \<Longrightarrow> digit_val (digit d) = Some d"
  by (auto simp: digit_def digit_val_def) arith

lemma int_of_str_pad2:
  assumes "0 \<le> n" and "n < 100"
  shows "int_of_str (pad2 n) = Inr n"
proof -
  have p: "pad2 n = [digit (n div 10), digit (n mod 10)]"
    using assms by (simp add: pad2_def)
  have a: "digit_val (digit (n div 10)) = Some (n div 10)"
    by (rule digit_val_digit) (use assms in auto)
  have b: "digit_val (digit (n mod 10)) = Some (n mod 10)"
    by (rule digit_val_digit) (use assms in auto)
  have "n div 10 * 10 + n mod 10 = n"
    by simp
  then show ?thesis
    unfolding p by (simp add: int_of_str_def a b digit_not_sep)
qed

lemma split_strftime:
  "str_split CHR '' '' (strftime dt) =
     [year_digits (year dt) @ CHR ''-'' # pad2 (month dt) @ CHR ''-'' # pad2 (day dt),
      pad2 (hour dt) @ CHR '':'' # pad2 (minute dt)]"
  by (simp add: strftime_def year_digits_def pad4_def pad2_def digit_not_sep)

lemma year_digits_pad4: "1000 \<le> y \<Longrightarrow> year_digits y = pad4 y"
  by (simp add: year_digits_def)

lemma split_time:
  "str_split CHR '':'' (pad2 h @ CHR '':'' # pad2 m) = [pad2 h, pad2 m]"
  by (simp add: pad2_def digit_not_sep)

lemma time_parts_strftime:
  assumes "0 \<le> hour dt" "hour dt < 24" "0 \<le> minute dt" "minute dt < 60"
    and "start_time b = strftime dt"
  shows "time_parts b = Inr (hour dt, minute dt)"
proof -
  have h: "int_of_str (pad2 (hour dt)) = Inr (hour dt)"
    by (rule int_of_str_pad2) (use assms in auto)
  have m: "int_of_str (pad2 (minute dt)) = Inr (minute dt)"
    by (rule int_of_str_pad2) (use assms in auto)
  show ?thesis
    by (simp add: time_parts_def assms(5) split_strftime index_def split_time h m)
qed


lemma bar_char_ok: "models b \<noteq> [] \<Longrightarrow> \<exists>c. bar_char b = Inr c"
  by (cases "models b") (auto simp: bar_char_def index_def)

lemma bar_char_empty: "models b = [] \<Longrightarrow> bar_char b = Inl IndexError"
  by (simp add: bar_char_def index_def)


lemma start_pos_nonneg:
  assumes "0 \<le> h" "0 \<le> m"
  shows "0 \<le> py_int (of_int (h * 60 + m) / 30)"
proof -
  have "py_int (of_int (h * 60 + m) / of_int 30) = (h * 60 + m) div 30"
    using assms by (subst py_int_quotient) auto
  moreover have "0 \<le> (h * 60 + m) div 30"
    using assms by (simp add: pos_imp_zdiv_nonneg_iff)
  ultimately show ?thesis by simp
qed

lemma place_block_ok:
  assumes "well_timed b" and "models b \<noteq> []" and "int (length timeline) = width"
  shows "\<exists>t. place_block width timeline b = Inr t"
proof -
  obtain h m where tp: "time_parts b = Inr (h, m)" and r: "0 \<le> h" "0 \<le> m"
    using assms(1) by (auto simp: well_timed_def split: sum.splits)
  obtain c where c: "bar_char b = Inr c"
    using bar_char_ok [OF assms(2)] by blast
  have "\<exists>t. fill_slots timeline width (py_int (of_int (h * 60 + m) / 30)) c
      [0..min (max 1 (py_int (of_int (duration_minutes b) / 30)))
             (width - py_int (of_int (h * 60 + m) / 30)) - 1] = Inr t"
    by (rule fill_slots_ok) (use start_pos_nonneg [OF r] assms(3) in auto)
  then show ?thesis
    by (simp add: place_block_def tp c Let_def)
qed

lemma place_block_empty_models:
  assumes "well_timed b" and "models b = []"
  shows "place_block width timeline b = Inl IndexError"
proof -
  obtain h m where tp: "time_parts b = Inr (h, m)"
    using assms(1) by (auto simp: well_timed_def split: sum.splits)
  show ?thesis
    by (simp add: place_block_def tp bar_char_empty [OF assms(2)] Let_def)
qed

lemma place_blocks_ok:
  assumes "\<forall>b \<in> set bs. models b \<noteq> [] \<and> well_timed b" and "int (length timeline) = width"
  shows "\<exists>t. place_blocks width timeline bs = Inr t"
  using assms
proof (induction bs arbitrary: timeline)
  case Nil
  then show ?case by simp
next
  case (Cons b bs)
  then obtain t where t: "place_block width timeline b = Inr t"
    using place_block_ok [of b timeline width] by auto
  then have "int (length t) = width"
    using Cons.prems place_block_length by fastforce
  then obtain t' where "place_blocks width t bs = Inr t'"
    using Cons.IH [of t] Cons.prems by auto
  then show ?case using t by simp
qed

lemma place_blocks_empty_models:
  assumes "\<forall>b \<in> set bs. well_timed b" and "\<exists>b \<in> set bs. models b = []"
    and "int (length timeline) = width"
  shows "place_blocks width timeline bs = Inl IndexError"
  using assms
proof (induction bs arbitrary: timeline)
  case Nil
  then show ?case by simp
next
  case (Cons b bs)
  show ?case
  proof (cases "models b = []")
    case True
    then show ?thesis
      using Cons.prems by (simp add: place_block_empty_models)
  next
    case False
    then obtain t where t: "place_block width timeline b = Inr t"
      using place_block_ok [of b timeline width] Cons.prems by auto
    then have "int (length t) = width"
      using Cons.prems place_block_length by fastforce
    then have "place_blocks width t bs = Inl IndexError"
      using Cons.IH [of t] Cons.prems False by auto
    then show ?thesis using t by simp
  qed
qed

lemma marker_no_color: "marker True = [124]"
  by (simp add: marker_def COLORS_def ascii_def)

lemma concat_cells_no_color: "length (concat (marked_cells True timeline)) = length timeline"
proof -
  have "map length (marked_cells True timeline) = map (\<lambda>_. 1) (enumerate 0 timeline)"
    by (auto simp: marked_cells_def marker_no_color)
  then show ?thesis
    by (simp add: length_concat sum_list_triv)
qed

lemma loaded_well_timed:
  assumes "load_block fromisoformat bd = Inr b"
    and "\<forall>s dt. fromisoformat s = Inr dt \<longrightarrow> valid_datetime dt"
  shows "well_timed b"
proof -
  from load_block_duration [OF assms(1)] obtain start where
    s: "fromisoformat (replace_Z (startTime bd)) = Inr start" and t: "start_time b = strftime start"
    by blast
  have v: "valid_datetime start" using assms(2) s by blast
  have "time_parts b = Inr (hour start, minute start)"
    by (rule time_parts_strftime) (use v t in \<open>auto simp: valid_datetime_def\<close>)
  then show ?thesis
    using v by (simp add: well_timed_def valid_datetime_def)
qed

text \<open>
  C3. With the default width of 48, whenever the renderer produces a bar for a list of
  blocks, the bar is the concatenation of exactly 48 cells, the cell at every index
  divisible by 12 is the marker string whatever the blocks wrote into that slot, and every
  other cell is the one character of its slot; without colours the bar is 48 characters
  long. The renderer produces a bar for every list of blocks that each have a model and
  a start time that reads back as a time of day, whatever their number, spans and
  overlaps.
\<close>

theorem timeline_bar_width_and_markers:
  "(\<forall>timeline. place_blocks 48 (replicate 48 (BAR_CHARS Empty)) bs = Inr timeline \<longrightarrow>
      get_timeline_bar nc bs 48 = Inr (concat (marked_cells nc timeline)) \<and>
      length (marked_cells nc timeline) = 48 \<and>
      (\<forall>i < 48. marked_cells nc timeline ! i =
                  (if i mod 12 = 0 then marker nc else [timeline ! i])) \<and>
      length (concat (marked_cells True timeline)) = 48) \<and>
   ((\<forall>b \<in> set bs. models b \<noteq> [] \<and> well_timed b) \<longrightarrow>
      (\<exists>timeline. place_blocks 48 (replicate 48 (BAR_CHARS Empty)) bs = Inr timeline))"
proof (intro conjI allI impI)
  fix timeline
  assume p: "place_blocks 48 (replicate 48 (BAR_CHARS Empty)) bs = Inr timeline"
  then have len: "length timeline = 48"
    using place_blocks_length by fastforce
  show "get_timeline_bar nc bs 48 = Inr (concat (marked_cells nc timeline))"
    using p by (simp add: get_timeline_bar_def)
  show "length (marked_cells nc timeline) = 48"
    using len by (simp add: marked_cells_length)
  show "\<And>i. i < 48 \<Longrightarrow> marked_cells nc timeline ! i =
                  (if i mod 12 = 0 then marker nc else [timeline ! i])"
    using len by (simp add: marked_cells_nth)
  show "length (concat (marked_cells True timeline)) = 48"
    using len by (simp add: concat_cells_no_color)
next
  assume "\<forall>b \<in> set bs. models b \<noteq> [] \<and> well_timed b"
  then show "\<exists>timeline. place_blocks 48 (replicate 48 (BAR_CHARS Empty)) bs = Inr timeline"
    by (rule place_blocks_ok) simp
qed

theorem timeline_bar_width_and_markers_witness:
  "list_all (\<lambda>b. models b \<noteq> [] \<and> well_timed b) example_blocks \<and>
   map start_time example_blocks = [''2025-09-13 00:00'', ''2025-09-13 10:30'', ''2025-09-14 23:10''] \<and>
   get_timeline_bar True example_blocks 48 =
     Inr [124, 9608, 183, 183, 183, 183, 183, 183, 183, 183, 183, 183, 124,
          183, 183, 183, 183, 183, 183, 183, 183, 9618, 9618, 9618, 124,
          9618, 9618, 9618, 9618, 9618, 9618, 183, 183, 183, 183, 183, 124,
          183, 183, 183, 183, 183, 183, 183, 183, 183, 9619, 9619] \<and>
   (\<exists>timeline.
      place_blocks 48 (replicate 48 (BAR_CHARS Empty)) example_blocks = Inr timeline \<and>
      timeline ! 0 = BAR_CHARS Opus \<and> timeline ! 24 = BAR_CHARS Mixed \<and>
      marked_cells True timeline ! 0 = marker True \<and>
      marked_cells True timeline ! 24 = marker True \<and>
      length (marked_cells True timeline) = 48 \<and>
      length (concat (marked_cells True timeline)) = 48 \<and>
      get_timeline_bar True example_blocks 48 = Inr (concat (marked_cells True timeline)))"
proof -
  have h: "list_all (\<lambda>b. models b \<noteq> [] \<and> well_timed b) example_blocks"
    by code_simp
  have s: "map start_time example_blocks =
      [''2025-09-13 00:00'', ''2025-09-13 10:30'', ''2025-09-14 23:10'']"
    by code_simp
  have bar: "get_timeline_bar True example_blocks 48 =
     Inr [124, 9608, 183, 183, 183, 183, 183, 183, 183, 183, 183, 183, 124,
          183, 183, 183, 183, 183, 183, 183, 183, 9618, 9618, 9618, 124,
          9618, 9618, 9618, 9618, 9618, 9618, 183, 183, 183, 183, 183, 124,
          183, 183, 183, 183, 183, 183, 183, 183, 183, 9619, 9619]"
    by code_simp
  note c = timeline_bar_width_and_markers [of example_blocks True]
  from h have "\<forall>b \<in> set example_blocks. models b \<noteq> [] \<and> well_timed b"
    by (simp add: list_all_iff)
  with c obtain timeline where
    p: "place_blocks 48 (replicate 48 (BAR_CHARS Empty)) example_blocks = Inr timeline"
    by blast
  have q: "place_blocks 48 (replicate 48 (BAR_CHARS Empty)) example_blocks =
     Inr [9608, 9608, 183, 183, 183, 183, 183, 183, 183, 183, 183, 183,
          183, 183, 183, 183, 183, 183, 183, 183, 183, 9618, 9618, 9618,
          9618, 9618, 9618, 9618, 9618, 9618, 9618, 183, 183, 183, 183,
          183, 183, 183, 183, 183, 183, 183, 183, 183, 183, 183, 9619, 9619]"
    by code_simp
  have t: "timeline ! 0 = BAR_CHARS Opus \<and> timeline ! 24 = BAR_CHARS Mixed"
    using p q by (simp add: BAR_CHARS_def)
  from c p have r:
    "get_timeline_bar True example_blocks 48 = Inr (concat (marked_cells True timeline))"
    "length (marked_cells True timeline) = 48"
    "\<forall>i < 48. marked_cells True timeline ! i =
                  (if i mod 12 = 0 then marker True else [timeline ! i])"
    "length (concat (marked_cells True timeline)) = 48"
    by blast+
  from r(3) have m: "marked_cells True timeline ! 0 = marker True \<and>
      marked_cells True timeline ! 24 = marker True"
    by simp
  show ?thesis
    using h s bar p t m r(1,2,4) by blast
qed

section \<open>Blocks without a model\<close>

lemma place_blocks_cases:
  assumes "\<forall>b \<in> set bs. well_timed b" and "int (length timeline) = width"
  shows "(\<exists>t. place_blocks width timeline bs = Inr t) \<or>
         place_blocks width timeline bs = Inl IndexError"
proof (cases "\<exists>b \<in> set bs. models b = []")
  case True
  then show ?thesis using assms place_blocks_empty_models by blast
next
  case False
  then have "\<forall>b \<in> set bs. models b \<noteq> [] \<and> well_timed b" using assms by blast
  then show ?thesis using assms(2) place_blocks_ok by blast
qed

lemma digits_val_Cons_digit:
  "0 \<le> d \<Longrightarrow> d \<le> 9 \<Longrightarrow> digits_val acc (digit d # cs) = digits_val (acc * 10 + d) cs"
  by (simp add: digit_val_digit)

lemma field_pad4:
  assumes "0 \<le> n" "n < 10000"
  shows "field 4 4 (pad4 n) = Some n"
proof -
  have r: "0 \<le> n div 1000 mod 10" "n div 1000 mod 10 \<le> 9"
    "0 \<le> n div 100 mod 10" "n div 100 mod 10 \<le> 9"
    "0 \<le> n div 10 mod 10" "n div 10 mod 10 \<le> 9"
    "0 \<le> n mod 10" "n mod 10 \<le> 9"
    by simp_all
  have e1: "n div 100 = n div 10 div 10" and e2: "n div 1000 = n div 10 div 10 div 10"
    by (simp_all add: zdiv_zmult2_eq)
  have k: "n div 1000 mod 10 = n div 1000" using assms by simp
  have a1: "n = 10 * (n div 10) + n mod 10" by simp
  have a2: "n div 10 = 10 * (n div 10 div 10) + n div 10 mod 10" by simp
  have a3: "n div 10 div 10 = 10 * (n div 10 div 10 div 10) + n div 10 div 10 mod 10" by simp
  have eq: "(((0 * 10 + n div 1000 mod 10) * 10 + n div 100 mod 10) * 10 + n div 10 mod 10) * 10 + n mod 10 = n"
    unfolding k unfolding e1 e2 using a1 a2 a3 by (simp only: algebra_simps)
  have len: "length (pad4 n) = 4"
    by (simp add: pad4_def)
  have "digits_val 0 (pad4 n) =
      Some ((((0 * 10 + n div 1000 mod 10) * 10 + n div 100 mod 10) * 10 + n div 10 mod 10) * 10 + n mod 10)"
    unfolding pad4_def
    by (simp only: digits_val_Cons_digit [OF r(1,2)] digits_val_Cons_digit [OF r(3,4)]
        digits_val_Cons_digit [OF r(5,6)] digits_val_Cons_digit [OF r(7,8)] digits_val.simps(1))
  then have "digits_val 0 (pad4 n) = Some n"
    by (simp only: eq)
  then show ?thesis
    unfolding field_def len by simp
qed

lemma field_pad2:
  assumes "0 \<le> n" "n < 100"
  shows "field (Suc 0) 2 (pad2 n) = Some n"
proof -
  have p: "pad2 n = [digit (n div 10), digit (n mod 10)]"
    using assms by (simp add: pad2_def)
  have a: "digit_val (digit (n div 10)) = Some (n div 10)"
    by (rule digit_val_digit) (use assms in auto)
  have b: "digit_val (digit (n mod 10)) = Some (n mod 10)"
    by (rule digit_val_digit) (use assms in auto)
  show ?thesis
    unfolding p by (simp add: field_def a b)
qed

lemma split_date:
  "str_split CHR ''-'' (pad4 y @ CHR ''-'' # pad2 m @ CHR ''-'' # pad2 d) = [pad4 y, pad2 m, pad2 d]"
  by (simp add: pad4_def pad2_def digit_not_sep)

lemma weekday_range: "0 \<le> weekday d \<and> weekday d < 7"
  by (simp add: weekday_def)

lemma get_weekday_ok:
  assumes "valid_datetime dt"
  shows "\<exists>wd. get_weekday (pad4 (year dt) @ CHR ''-'' # pad2 (month dt) @ CHR ''-'' # pad2 (day dt)) = Inr wd"
proof -
  have y: "field 4 4 (pad4 (year dt)) = Some (year dt)"
    by (rule field_pad4) (use assms in \<open>auto simp: valid_datetime_def\<close>)
  have m: "field (Suc 0) 2 (pad2 (month dt)) = Some (month dt)"
    by (rule field_pad2) (use assms in \<open>auto simp: valid_datetime_def\<close>)
  have "day dt \<le> 31"
    using assms by (auto simp: valid_datetime_def days_in_month_def split: if_splits)
  then have d: "field (Suc 0) 2 (pad2 (day dt)) = Some (day dt)"
    by (intro field_pad2) (use assms in \<open>auto simp: valid_datetime_def\<close>)
  have z: "str_split CHR '':'' ''0:0'' = [''0'', ''0'']" "field (Suc 0) 2 ''0'' = Some 0"
    by (simp_all add: field_def digit_val_def)
  let ?d = "\<lparr> year = year dt, month = month dt, day = day dt, hour = 0, minute = 0,
             second = 0, microsecond = 0, tzinfo = None \<rparr>"
  have v: "valid_datetime ?d"
    using assms by (simp add: valid_datetime_def)
  have "strptime_date (pad4 (year dt) @ CHR ''-'' # pad2 (month dt) @ CHR ''-'' # pad2 (day dt)) = Inr ?d"
    unfolding strptime_date_def strptime_fields_def split_date z(1)
    by (simp add: y m d z(2) v Let_def del: str_split.simps)
  moreover have "\<exists>wd. index weekdays (weekday ?d) = Inr wd"
    using weekday_range [of ?d] by (simp add: index_def weekdays_def)
  ultimately show ?thesis
    by (auto simp: get_weekday_def)
qed


lemma load_blocks_sources:
  "load_blocks fromisoformat l = Inr bs \<Longrightarrow>
   \<forall>b \<in> set bs. \<exists>bd \<in> set l. \<not> isGap bd \<and> load_block fromisoformat bd = Inr b"
  by (induction l arbitrary: bs) (auto split: if_splits sum.splits)

lemma loaded_start_time:
  assumes "load_block fromisoformat bd = Inr b"
    and "\<forall>s dt. fromisoformat s = Inr dt \<longrightarrow> valid_datetime dt"
  shows "\<exists>dt. valid_datetime dt \<and> start_time b = strftime dt \<and>
              fromisoformat (replace_Z (startTime bd)) = Inr dt"
proof -
  from load_block_duration [OF assms(1)] obtain start where
    "fromisoformat (replace_Z (startTime bd)) = Inr start" "start_time b = strftime start"
    by blast
  then show ?thesis using assms(2) by blast
qed

lemma loaded_four_digit_years:
  assumes "load_blocks fromisoformat (get_blocks jd) = Inr bs"
    and "\<forall>s dt. fromisoformat s = Inr dt \<longrightarrow> valid_datetime dt"
    and "four_digit_years fromisoformat jd"
  shows "\<forall>b \<in> set bs. \<exists>dt. valid_datetime dt \<and> 1000 \<le> year dt \<and> start_time b = strftime dt"
proof
  fix b assume "b \<in> set bs"
  then obtain bd where bd: "bd \<in> set (get_blocks jd)" "\<not> isGap bd"
    "load_block fromisoformat bd = Inr b"
    using load_blocks_sources [OF assms(1)] by blast
  from loaded_start_time [OF bd(3) assms(2)] obtain dt where dt:
    "valid_datetime dt" "start_time b = strftime dt"
    "fromisoformat (replace_Z (startTime bd)) = Inr dt"
    by blast
  have "1000 \<le> year dt"
    using assms(3) bd(1,2) dt(3) by (auto simp: four_digit_years_def list_all_iff)
  then show "\<exists>dt. valid_datetime dt \<and> 1000 \<le> year dt \<and> start_time b = strftime dt"
    using dt by blast
qed

lemma get_weekday_date_str:
  assumes "valid_datetime dt" and "1000 \<le> year dt" and "start_time b = strftime dt"
  shows "\<exists>wd. get_weekday (date_str_of b) = Inr wd"
proof -
  have "date_str_of b = pad4 (year dt) @ CHR ''-'' # pad2 (month dt) @ CHR ''-'' # pad2 (day dt)"
    by (simp only: date_str_of_def assms(3) split_strftime list.sel year_digits_pad4 [OF assms(2)])
  then show ?thesis using get_weekday_ok [OF assms(1)] by simp
qed

lemma snd_then_run:
  "snd (then_run a b) = (case snd a of Some e \<Rightarrow> Some e | None \<Rightarrow> snd b)"
  by (simp add: then_run_def split: option.splits)

lemma well_timed_index:
  "well_timed b \<Longrightarrow> \<exists>t. index (str_split CHR '' '' (start_time b)) 1 = Inr t"
  by (cases "index (str_split CHR '' '' (start_time b)) 1")
     (simp_all add: well_timed_def time_parts_def)

lemma print_block_lines_ok:
  "\<forall>b \<in> set bs. well_timed b \<Longrightarrow> snd (print_block_lines bs) = None"
proof (induction bs)
  case Nil
  then show ?case by simp
next
  case (Cons b bs)
  then obtain t where "index (str_split CHR '' '' (start_time b)) 1 = Inr t"
    using well_timed_index [of b] by auto
  then show ?case using Cons by (simp add: snd_then_run)
qed

lemma get_timeline_bar_empty_models:
  assumes "\<forall>b \<in> set bs. well_timed b" and "\<exists>b \<in> set bs. models b = []"
  shows "get_timeline_bar nc bs 48 = Inl IndexError"
proof -
  have "place_blocks 48 (replicate (nat 48) (BAR_CHARS Empty)) bs = Inl IndexError"
    by (rule place_blocks_empty_models [OF assms]) simp
  then show ?thesis by (simp add: get_timeline_bar_def)
qed

lemma get_timeline_bar_cases:
  assumes "\<forall>b \<in> set bs. well_timed b"
  shows "(\<exists>bar. get_timeline_bar nc bs 48 = Inr bar) \<or> get_timeline_bar nc bs 48 = Inl IndexError"
proof -
  have "(\<exists>t. place_blocks 48 (replicate (nat 48) (BAR_CHARS Empty)) bs = Inr t) \<or>
        place_blocks 48 (replicate (nat 48) (BAR_CHARS Empty)) bs = Inl IndexError"
    by (rule place_blocks_cases [OF assms]) simp
  then show ?thesis by (auto simp: get_timeline_bar_def)
qed

lemma print_day_row_cases:
  assumes "\<forall>b \<in> set (day_blocks data). well_timed b"
    and "\<exists>wd. get_weekday date_str = Inr wd"
  shows "snd (print_day_row nc date_str data) = None \<or>
         snd (print_day_row nc date_str data) = Some IndexError"
  using get_timeline_bar_cases [OF assms(1), of nc] assms(2)
  by (auto simp: print_day_row_def)

lemma print_rows_IndexError:
  assumes "\<forall>p \<in> set rows. snd (print_day_row nc (fst p) (snd p)) = None \<or>
                            snd (print_day_row nc (fst p) (snd p)) = Some IndexError"
    and "\<exists>p \<in> set rows. snd (print_day_row nc (fst p) (snd p)) = Some IndexError"
  shows "snd (print_rows nc rows) = Some IndexError"
  using assms
proof (induction rows)
  case Nil
  then show ?case by simp
next
  case (Cons p rows)
  obtain d dat where p: "p = (d, dat)" by (cases p)
  show ?case
  proof (cases "snd (print_day_row nc d dat)")
    case None
    then have "snd (print_rows nc rows) = Some IndexError"
      using Cons p by auto
    then show ?thesis using None p by (simp add: snd_then_run)
  next
    case (Some e)
    then have "e = IndexError" using Cons.prems(1) p by auto
    then show ?thesis using Some p by (simp add: snd_then_run)
  qed
qed

lemma set_sorted_desc: "set (sorted_desc key xs) = set xs"
  by (simp add: sorted_desc_def)

lemma set_slice_to: "set (slice_to xs k) \<subseteq> set xs"
  by (auto simp: slice_to_def dest: in_set_takeD)

lemma set_dates_to_show: "set (dates_to_show dd ft sb lmt) \<subseteq> set dd"
proof -
  have chrono: "set (List.map_filter (\<lambda>date_str. map_option (Pair date_str) (map_of dd date_str))
             (sort (map fst dd))) \<subseteq> set dd"
    by (auto simp: List.map_filter_def dest: map_of_SomeD)
  have sorted: "set (case lmt of None \<Rightarrow> xs | Some n \<Rightarrow> if n \<noteq> 0 then slice_to xs n else xs) \<subseteq> set xs"
    for xs :: "(string \<times> daily) list"
    using set_slice_to [of xs] by (auto split: option.splits)
  show ?thesis
    unfolding dates_to_show_def Let_def
    using chrono sorted [of "sorted_desc (\<lambda>x. total_cost (snd x)) dd"]
      sorted [of "sorted_desc (\<lambda>x. total_duration (snd x)) dd"] sorted [of "[]"]
    by (auto simp: set_sorted_desc split: if_splits)
qed

lemma print_header_ok: "snd (print_header v) = None"
  by (simp add: print_header_def)

lemma loaded_days:
  assumes "load_from_json fromisoformat nc jd = Inr v"
    and "\<forall>s dt. fromisoformat s = Inr dt \<longrightarrow> valid_datetime dt"
    and "(date, data) \<in> set (daily_data v)"
  shows "(\<forall>b \<in> set (day_blocks data). well_timed b) \<and>
         (four_digit_years fromisoformat jd \<longrightarrow> (\<exists>wd. get_weekday date = Inr wd)) \<and>
         map_of (daily_data v) date = Some data \<and>
         no_color v = nc"
proof -
  obtain bs where bs: "load_blocks fromisoformat (get_blocks jd) = Inr bs"
    and v: "v = \<lparr> blocks = bs, daily_data = group_by_date bs, no_color = nc \<rparr>"
    using assms(1) by (auto simp: load_from_json_def split: sum.splits)
  have g: "grouped bs (daily_data v)"
    using grouped_group_by_date [of bs] by (simp add: v)
  have src: "\<forall>b \<in> set bs. \<exists>bd. load_block fromisoformat bd = Inr b"
    using load_blocks_sources [OF bs] by blast
  have wt: "\<forall>b \<in> set bs. well_timed b"
    using src loaded_well_timed assms(2) by blast
  have day: "day_blocks data = filter (\<lambda>b. date_str_of b = date) bs" "day_blocks data \<noteq> []"
    using g assms(3) by (auto simp: grouped_def)
  have 1: "\<forall>b \<in> set (day_blocks data). well_timed b"
    using wt day(1) by simp
  have "\<exists>b0 \<in> set bs. date_str_of b0 = date"
    using day by (simp add: filter_empty_conv)
  then obtain b0 where b0: "b0 \<in> set bs" "date_str_of b0 = date"
    by blast
  have 2: "\<exists>wd. get_weekday date = Inr wd" if years: "four_digit_years fromisoformat jd"
  proof -
    obtain dt where "valid_datetime dt" "1000 \<le> year dt" "start_time b0 = strftime dt"
      using loaded_four_digit_years [OF bs assms(2) years] b0(1) by blast
    then show ?thesis
      using get_weekday_date_str [of dt b0] b0(2) by simp
  qed
  have "distinct (map fst (daily_data v))"
    using g by (simp add: grouped_def)
  then have 3: "map_of (daily_data v) date = Some data"
    using assms(3) by simp
  show ?thesis using 1 2 3 by (simp add: v)
qed

lemma fromisoformat_basic_valid:
  "\<forall>s dt. fromisoformat_basic s = Inr dt \<longrightarrow> valid_datetime dt"
  by (auto simp: fromisoformat_basic_def Let_def
      split: list.splits option.splits prod.splits if_splits)

text \<open>
  C9. The renderer reads \<open>models[0]\<close> of a block with at most one model without a guard.
  After a load that succeeds (with a parser that returns valid datetimes), if a block
  stored under a day has an empty model list, then the bar for that day is not produced
  and \<open>IndexError\<close> is raised, and the row of that day in the day table raises it. When
  moreover every block that is not a gap starts in a year of four digits (so that every
  day key reads back as a date), the day table raises it whenever that day is among the
  rows it shows, the day detail raises it, and \<open>main\<close> with that date ends with status 1
  and the traceback of the \<open>IndexError\<close>.
\<close>

theorem empty_models_break_day_views:
  assumes "load_from_json fromisoformat nc jd = Inr v"
    and "\<forall>s dt. fromisoformat s = Inr dt \<longrightarrow> valid_datetime dt"
    and "(date, data) \<in> set (daily_data v)"
    and "b \<in> set (day_blocks data)" and "models b = []"
  shows "get_timeline_bar nc (day_blocks data) 48 = Inl IndexError \<and>
         print_day_row nc date data = ([], Some IndexError) \<and>
         (four_digit_years fromisoformat jd \<longrightarrow>
            snd (print_daily_detail v date) = Some IndexError \<and>
            ((date, data) \<in> set (dates_to_show (daily_data v) ft sb lmt) \<longrightarrow>
               snd (print_timeline_table v ft sb lmt) = Some IndexError) \<and>
            (\<not> arg_current a \<and> arg_date a = Some date \<and> arg_no_color a = nc \<longrightarrow>
               exit_code (main fromisoformat now a (Parsed jd)) = 1 \<and>
               stderr (main fromisoformat now a (Parsed jd)) = [Traceback IndexError]))"
proof -
  note d = loaded_days [OF assms(1,2,3)]
  have wt: "\<forall>b \<in> set (day_blocks data). well_timed b" using d by blast
  have em: "\<exists>b \<in> set (day_blocks data). models b = []" using assms(4,5) by blast
  have 1: "get_timeline_bar nc' (day_blocks data) 48 = Inl IndexError" for nc'
    by (rule get_timeline_bar_empty_models [OF wt em])
  have 2: "print_day_row nc date data = ([], Some IndexError)"
    by (simp add: print_day_row_def 1)
  have rest: "snd (print_daily_detail v date) = Some IndexError \<and>
      ((date, data) \<in> set (dates_to_show (daily_data v) ft sb lmt) \<longrightarrow>
         snd (print_timeline_table v ft sb lmt) = Some IndexError) \<and>
      (\<not> arg_current a \<and> arg_date a = Some date \<and> arg_no_color a = nc \<longrightarrow>
         exit_code (main fromisoformat now a (Parsed jd)) = 1 \<and>
         stderr (main fromisoformat now a (Parsed jd)) = [Traceback IndexError])"
    if years: "four_digit_years fromisoformat jd"
  proof -
    obtain wd where wd: "get_weekday date = Inr wd" using d years by blast
    have 3: "snd (print_daily_detail v date) = Some IndexError"
      using d by (simp add: print_daily_detail_def snd_then_run print_header_ok wd
          print_block_lines_ok [OF wt] 1)
    have 4: "snd (print_timeline_table v ft sb lmt) = Some IndexError"
      if "(date, data) \<in> set (dates_to_show (daily_data v) ft sb lmt)"
    proof -
      let ?rows = "dates_to_show (daily_data v) ft sb lmt"
      have "\<forall>p \<in> set ?rows. snd (print_day_row nc (fst p) (snd p)) = None \<or>
                              snd (print_day_row nc (fst p) (snd p)) = Some IndexError"
      proof
        fix p assume "p \<in> set ?rows"
        then have "(fst p, snd p) \<in> set (daily_data v)"
          using set_dates_to_show by fastforce
        from loaded_days [OF assms(1,2) this] years show
          "snd (print_day_row nc (fst p) (snd p)) = None \<or>
           snd (print_day_row nc (fst p) (snd p)) = Some IndexError"
          by (intro print_day_row_cases) blast+
      qed
      moreover have "\<exists>p \<in> set ?rows. snd (print_day_row nc (fst p) (snd p)) = Some IndexError"
        using that 2 by force
      ultimately have "snd (print_rows nc ?rows) = Some IndexError"
        by (rule print_rows_IndexError)
      moreover have "daily_data v \<noteq> []" using assms(3) by auto
      moreover have "no_color v = nc" using d by blast
      ultimately show ?thesis
        by (simp add: print_timeline_table_def snd_then_run)
    qed
    have 5: "exit_code (main fromisoformat now a (Parsed jd)) = 1 \<and>
             stderr (main fromisoformat now a (Parsed jd)) = [Traceback IndexError]"
      if "\<not> arg_current a \<and> arg_date a = Some date \<and> arg_no_color a = nc"
    proof -
      have "date \<noteq> []"
        using wd by (auto simp: get_weekday_def strptime_date_def strptime_fields_def)
      then have "show_views v now a = print_daily_detail v date"
        using that by (simp add: show_views_def)
      then show ?thesis
        using that assms(1) 3 by (simp add: main_def finish_def)
    qed
    show ?thesis using 3 4 5 by blast
  qed
  show ?thesis using 1 2 rest by blast
qed

theorem empty_models_break_day_views_witness:
  "\<exists>v data b.
     load_from_json fromisoformat_basic True example_json_no_model = Inr v \<and>
     four_digit_years fromisoformat_basic example_json_no_model \<and>
     (''2025-09-13'', data) \<in> set (daily_data v) \<and>
     b \<in> set (day_blocks data) \<and> models b = [] \<and> \<not> is_gap b \<and>
     get_timeline_bar True (day_blocks data) 48 = Inl IndexError \<and>
     print_day_row True ''2025-09-13'' data = ([], Some IndexError) \<and>
     snd (print_daily_detail v ''2025-09-13'') = Some IndexError \<and>
     snd (print_timeline_table v ''all'' None None) = Some IndexError \<and>
     exit_code (main fromisoformat_basic example_now
        (example_args\<lparr>arg_date := Some ''2025-09-13''\<rparr>) (Parsed example_json_no_model)) = 1 \<and>
     stderr (main fromisoformat_basic example_now
        (example_args\<lparr>arg_date := Some ''2025-09-13''\<rparr>) (Parsed example_json_no_model)) =
       [Traceback IndexError]"
proof -
  let ?v = "projr (load_from_json fromisoformat_basic True example_json_no_model)"
  let ?data = "snd (hd (daily_data ?v))"
  let ?b = "last (day_blocks ?data)"
  let ?a = "example_args\<lparr>arg_date := Some ''2025-09-13''\<rparr>"
  have "\<not> isl (load_from_json fromisoformat_basic True example_json_no_model)"
    by code_simp
  then have h: "load_from_json fromisoformat_basic True example_json_no_model = Inr ?v"
    by simp
  have y: "four_digit_years fromisoformat_basic example_json_no_model"
    by code_simp
  have ne: "daily_data ?v \<noteq> []" and k: "fst (hd (daily_data ?v)) = ''2025-09-13''"
    by code_simp+
  have day: "(''2025-09-13'', ?data) \<in> set (daily_data ?v)"
    using ne k by (metis hd_in_set prod.collapse)
  have bne: "day_blocks ?data \<noteq> []" and m: "models ?b = []" and g: "\<not> is_gap ?b"
    by code_simp+
  have b: "?b \<in> set (day_blocks ?data)"
    using bne by simp
  have shown: "(''2025-09-13'', ?data) \<in> set (dates_to_show (daily_data ?v) ''all'' None None)"
    by code_simp
  have args: "\<not> arg_current ?a \<and> arg_date ?a = Some ''2025-09-13'' \<and> arg_no_color ?a = True"
    by (simp add: example_args_def)
  note c = empty_models_break_day_views [OF h fromisoformat_basic_valid day b m,
      of "''all''" None None ?a example_now]
  show ?thesis
    by (intro exI [of _ ?v] exI [of _ ?data] exI [of _ ?b]) (use h y day b m g shown args c in blast)
qed

section \<open>The day table sorted by cost\<close>

lemma last_filter_last: "xs \<noteq> [] \<Longrightarrow> P (last xs) \<Longrightarrow> last (filter P xs) = last xs"
  by (cases xs rule: rev_cases) simp_all

lemma sorted_le_last:
  fixes xs :: "'k::linorder list"
  shows "sorted xs \<Longrightarrow> x \<in> set xs \<Longrightarrow> x \<le> last xs"
  by (cases xs rule: rev_cases) (auto simp: sorted_append)

lemma hd_sorted_desc:
  fixes f :: "'a \<Rightarrow> 'k::linorder"
  assumes "xs \<noteq> []"
  defines "best \<equiv> hd (sorted_desc f xs)"
  shows "sorted_desc f xs \<noteq> [] \<and> best \<in> set xs \<and> (\<forall>x \<in> set xs. f x \<le> f best) \<and>
         best = hd (filter (\<lambda>x. f x = f best) xs)"
proof -
  let ?ys = "sort_key f (rev xs)"
  have ne: "?ys \<noteq> []" using assms(1) by (metis length_sort length_rev length_0_conv)
  have best: "best = last ?ys"
    unfolding best_def sorted_desc_def using ne by (simp add: hd_rev)
  have mem: "best \<in> set xs"
    using ne best by (metis last_in_set set_sort set_rev)
  have "sorted (map f ?ys)" by simp
  then have "\<forall>k \<in> set (map f ?ys). k \<le> last (map f ?ys)"
    using sorted_le_last by blast
  then have mx: "\<forall>x \<in> set xs. f x \<le> f best"
    using ne best by (simp add: last_map)
  have "filter (\<lambda>x. f x = f best) ?ys = filter (\<lambda>x. f x = f best) (rev xs)"
    by (rule sort_key_stable)
  moreover have "last (filter (\<lambda>x. f x = f best) ?ys) = last ?ys"
    using ne best by (intro last_filter_last) simp_all
  ultimately have "best = last (filter (\<lambda>x. f x = f best) (rev xs))"
    using best by simp
  also have "\<dots> = hd (filter (\<lambda>x. f x = f best) xs)"
    by (simp add: rev_filter [symmetric] last_rev)
  finally have "best = hd (filter (\<lambda>x. f x = f best) xs)" .
  moreover have "sorted_desc f xs \<noteq> []" using ne by (simp add: sorted_desc_def)
  ultimately show ?thesis using mem mx by blast
qed

lemma loaded_days_nonempty:
  assumes "load_from_json fromisoformat nc jd = Inr v" and "blocks v \<noteq> []"
  shows "daily_data v \<noteq> []"
proof -
  obtain bs where v: "v = \<lparr> blocks = bs, daily_data = group_by_date bs, no_color = nc \<rparr>"
    using assms(1) by (auto simp: load_from_json_def split: sum.splits)
  have "grouped bs (daily_data v)"
    using grouped_group_by_date [of bs] by (simp add: v)
  then have "\<forall>b \<in> set bs. date_str_of b \<in> fst ` set (daily_data v)"
    by (simp add: grouped_def)
  moreover obtain b where "b \<in> set bs"
    using assms(2) v by (cases bs) auto
  ultimately show ?thesis by auto
qed

text \<open>
  C6. For every loaded dataset with at least one block, the day table sorted by cost (with
  no limit, or a limit that is not negative) has a first row; that row is a day of the
  dataset whose total cost is at least the total cost of every day, and among the days
  with that cost it is the one that comes first in the dictionary's key order.
\<close>

theorem cost_sort_first_is_max:
  assumes "load_from_json fromisoformat nc jd = Inr v" and "blocks v \<noteq> []"
    and "lmt = None \<or> (\<exists>n. lmt = Some n \<and> 0 \<le> n)"
  shows "dates_to_show (daily_data v) ft (Some ''cost'') lmt \<noteq> [] \<and>
         hd (dates_to_show (daily_data v) ft (Some ''cost'') lmt) =
           hd (sorted_desc (\<lambda>x. total_cost (snd x)) (daily_data v)) \<and>
         hd (sorted_desc (\<lambda>x. total_cost (snd x)) (daily_data v)) \<in> set (daily_data v) \<and>
         (\<forall>p \<in> set (daily_data v).
            total_cost (snd p) \<le>
            total_cost (snd (hd (sorted_desc (\<lambda>x. total_cost (snd x)) (daily_data v))))) \<and>
         hd (sorted_desc (\<lambda>x. total_cost (snd x)) (daily_data v)) =
           hd (filter
                 (\<lambda>p. total_cost (snd p) =
                      total_cost (snd (hd (sorted_desc (\<lambda>x. total_cost (snd x)) (daily_data v)))))
                 (daily_data v))"
proof -
  let ?s = "sorted_desc (\<lambda>x. total_cost (snd x)) (daily_data v)"
  have ne: "daily_data v \<noteq> []"
    using assms(1,2) by (rule loaded_days_nonempty)
  note h = hd_sorted_desc [OF ne, of "\<lambda>x. total_cost (snd x)"]
  have sne: "?s \<noteq> []" using h by blast
  have rows: "dates_to_show (daily_data v) ft (Some ''cost'') lmt =
      (case lmt of None \<Rightarrow> ?s | Some n \<Rightarrow> if n \<noteq> 0 then slice_to ?s n else ?s)"
    by (simp add: dates_to_show_def Let_def)
  have cut: "slice_to ?s n \<noteq> [] \<and> hd (slice_to ?s n) = hd ?s" if "0 < n" for n
    using that sne by (simp add: slice_to_def)
  have 1: "dates_to_show (daily_data v) ft (Some ''cost'') lmt \<noteq> [] \<and>
           hd (dates_to_show (daily_data v) ft (Some ''cost'') lmt) = hd ?s"
    unfolding rows using assms(3) sne cut by (auto split: option.splits)
  show ?thesis using 1 h by blast
qed

theorem cost_sort_first_is_max_witness:
  "\<exists>v. load_from_json fromisoformat_basic True example_json_tie = Inr v \<and>
       map fst (daily_data v) = [''2025-09-14'', ''2025-09-13''] \<and>
       map (\<lambda>p. total_cost (snd p)) (daily_data v) = [5, 5] \<and>
       map fst (dates_to_show (daily_data v) ''all'' (Some ''cost'') (Some 10)) =
         [''2025-09-14'', ''2025-09-13''] \<and>
       hd (dates_to_show (daily_data v) ''all'' (Some ''cost'') (Some 10)) =
         hd (sorted_desc (\<lambda>x. total_cost (snd x)) (daily_data v)) \<and>
       hd (sorted_desc (\<lambda>x. total_cost (snd x)) (daily_data v)) \<in> set (daily_data v) \<and>
       (\<forall>p \<in> set (daily_data v).
          total_cost (snd p) \<le>
          total_cost (snd (hd (sorted_desc (\<lambda>x. total_cost (snd x)) (daily_data v))))) \<and>
       hd (sorted_desc (\<lambda>x. total_cost (snd x)) (daily_data v)) =
         hd (filter
               (\<lambda>p. total_cost (snd p) =
                    total_cost (snd (hd (sorted_desc (\<lambda>x. total_cost (snd x)) (daily_data v)))))
               (daily_data v))"
proof -
  let ?v = "projr (load_from_json fromisoformat_basic True example_json_tie)"
  have "\<not> isl (load_from_json fromisoformat_basic True example_json_tie)"
    by code_simp
  then have h: "load_from_json fromisoformat_basic True example_json_tie = Inr ?v"
    by simp
  have ne: "blocks ?v \<noteq> []"
    by code_simp
  have k: "map fst (daily_data ?v) = [''2025-09-14'', ''2025-09-13'']"
    by code_simp
  have c: "map (\<lambda>p. total_cost (snd p)) (daily_data ?v) = [5, 5]"
    by code_simp
  have r: "map fst (dates_to_show (daily_data ?v) ''all'' (Some ''cost'') (Some 10)) =
         [''2025-09-14'', ''2025-09-13'']"
    by code_simp
  have l: "Some (10::int) = None \<or> (\<exists>n. Some (10::int) = Some n \<and> 0 \<le> n)"
    by simp
  note t = cost_sort_first_is_max [OF h ne l, of "''all''"]
  show ?thesis
    by (rule exI [of _ ?v]) (use h k c r t in blast)
qed

section \<open>The limit of the day table\<close>

text \<open>
  C10. With a sort order requested and \<open>--limit 0\<close>, \<open>main\<close> passes the limit 10, as it
  does when no limit is given: the day table shows the first ten days of the sorted list
  (all of them when there are fewer), and the whole outcome of \<open>main\<close> is the one without
  \<open>--limit\<close>.
\<close>

theorem limit_zero_is_default:
  assumes "arg_sort_cost a \<or> arg_sort_duration a" and "arg_limit a = Some 0"
  shows "limit_of a = Some 10 \<and>
         limit_of a = limit_of (a\<lparr>arg_limit := None\<rparr>) \<and>
         dates_to_show dd (filter_type_of a) (sort_by_of a) (limit_of a) =
           take 10 (if arg_sort_cost a then sorted_desc (\<lambda>x. total_cost (snd x)) dd
                    else sorted_desc (\<lambda>x. total_duration (snd x)) dd) \<and>
         length (dates_to_show dd (filter_type_of a) (sort_by_of a) (limit_of a)) =
           min 10 (length dd) \<and>
         main fromisoformat now a rd = main fromisoformat now (a\<lparr>arg_limit := None\<rparr>) rd"
proof -
  have s: "sort_by_of a \<noteq> None" "sort_by_of a \<noteq> Some []"
    using assms(1) by (auto simp: sort_by_of_def)
  have 1: "limit_of a = Some 10"
    using assms(2) s by (simp add: limit_of_def)
  have 2: "limit_of (a\<lparr>arg_limit := None\<rparr>) = Some 10"
    using assms(1) by (auto simp: limit_of_def sort_by_of_def)
  have 3: "dates_to_show dd (filter_type_of a) (sort_by_of a) (limit_of a) =
           take 10 (if arg_sort_cost a then sorted_desc (\<lambda>x. total_cost (snd x)) dd
                    else sorted_desc (\<lambda>x. total_duration (snd x)) dd)"
    using assms(1) by (auto simp: 1 dates_to_show_def sort_by_of_def slice_to_def Let_def)
  have 4: "length (dates_to_show dd (filter_type_of a) (sort_by_of a) (limit_of a)) =
           min 10 (length dd)"
    unfolding 3 by (simp add: sorted_desc_def)
  have "show_views v now a = show_views v now (a\<lparr>arg_limit := None\<rparr>)" for v
    by (simp add: show_views_def 1 2 filter_type_of_def sort_by_of_def)
  then have 5: "main fromisoformat now a rd = main fromisoformat now (a\<lparr>arg_limit := None\<rparr>) rd"
    by (simp add: main_def split: read_result.splits sum.splits)
  show ?thesis using 1 2 3 4 5 by simp
qed

theorem limit_zero_is_default_witness:
  "\<exists>v. load_from_json fromisoformat_basic True example_json_twelve = Inr v \<and>
       length (daily_data v) = 12 \<and>
       (arg_sort_cost (example_args\<lparr>arg_sort_cost := True, arg_limit := Some 0\<rparr>) \<or>
        arg_sort_duration (example_args\<lparr>arg_sort_cost := True, arg_limit := Some 0\<rparr>)) \<and>
       arg_limit (example_args\<lparr>arg_sort_cost := True, arg_limit := Some 0\<rparr>) = Some 0 \<and>
       limit_of (example_args\<lparr>arg_sort_cost := True, arg_limit := Some 0\<rparr>) = Some 10 \<and>
       map fst (dates_to_show (daily_data v)
          (filter_type_of (example_args\<lparr>arg_sort_cost := True, arg_limit := Some 0\<rparr>))
          (sort_by_of (example_args\<lparr>arg_sort_cost := True, arg_limit := Some 0\<rparr>))
          (limit_of (example_args\<lparr>arg_sort_cost := True, arg_limit := Some 0\<rparr>))) =
         [''2025-09-12'', ''2025-09-11'', ''2025-09-10'', ''2025-09-09'', ''2025-09-08'',
          ''2025-09-07'', ''2025-09-06'', ''2025-09-05'', ''2025-09-04'', ''2025-09-03''] \<and>
       length (dates_to_show (daily_data v)
          (filter_type_of (example_args\<lparr>arg_sort_cost := True, arg_limit := Some 0\<rparr>))
          (sort_by_of (example_args\<lparr>arg_sort_cost := True, arg_limit := Some 0\<rparr>))
          (limit_of (example_args\<lparr>arg_sort_cost := True, arg_limit := Some 0\<rparr>))) =
         min 10 (length (daily_data v)) \<and>
       main fromisoformat_basic example_now
         (example_args\<lparr>arg_sort_cost := True, arg_limit := Some 0\<rparr>) (Parsed example_json_twelve) =
       main fromisoformat_basic example_now
         (example_args\<lparr>arg_sort_cost := True, arg_limit := Some 0\<rparr>\<lparr>arg_limit := None\<rparr>)
         (Parsed example_json_twelve)"
proof -
  let ?v = "projr (load_from_json fromisoformat_basic True example_json_twelve)"
  let ?a = "example_args\<lparr>arg_sort_cost := True, arg_limit := Some 0\<rparr>"
  have "\<not> isl (load_from_json fromisoformat_basic True example_json_twelve)"
    by code_simp
  then have h: "load_from_json fromisoformat_basic True example_json_twelve = Inr ?v"
    by simp
  have n: "length (daily_data ?v) = 12"
    by code_simp
  have h1: "arg_sort_cost ?a \<or> arg_sort_duration ?a" by simp
  have h2: "arg_limit ?a = Some 0" by simp
  note t = limit_zero_is_default [OF h1 h2, of "daily_data ?v" fromisoformat_basic example_now
      "Parsed example_json_twelve"]
  have r: "map fst (dates_to_show (daily_data ?v) (filter_type_of ?a) (sort_by_of ?a) (limit_of ?a)) =
         [''2025-09-12'', ''2025-09-11'', ''2025-09-10'', ''2025-09-09'', ''2025-09-08'',
          ''2025-09-07'', ''2025-09-06'', ''2025-09-05'', ''2025-09-04'', ''2025-09-03'']"
    by code_simp
  show ?thesis
    by (rule exI [of _ ?v]) (use h n h1 h2 t r in blast)
qed

section \<open>Exit codes\<close>

lemma next_day_ok: "year d < 9999 \<Longrightarrow> \<exists>r. next_day d = Inr r"
  by (simp add: next_day_def)

lemma reset_time_ok:
  assumes "year now < 9999"
  shows "\<exists>r. reset_time_of now = Inr r"
proof -
  let ?r = "now\<lparr>hour := (hour now div 5 * 5 + 5) mod 24, minute := 0, second := 0, microsecond := 0\<rparr>"
  obtain r where r: "next_day ?r = Inr r"
    using next_day_ok [of ?r] assms by auto
  show ?thesis
    by (cases "24 \<le> hour now div 5 * 5 + 5") (simp_all add: reset_time_of_def Let_def r)
qed

lemma empty_current_session:
  assumes "blocks v = []" and "year now < 9999"
  shows "\<exists>info. get_current_session_info v now = Inr info"
proof -
  obtain r where "reset_time_of now = Inr r"
    using reset_time_ok [OF assms(2)] by blast
  then show ?thesis
    by (simp add: get_current_session_info_def Let_def assms(1))
qed

lemma empty_dataset_views:
  assumes "blocks v = []" and "daily_data v = []" and "arg_current a \<longrightarrow> year now < 9999"
  shows "snd (show_views v now a) = None"
proof (cases "arg_current a")
  case True
  then obtain info where "get_current_session_info v now = Inr info"
    using empty_current_session assms by blast
  then show ?thesis
    using True by (simp add: show_views_def print_current_session_line_def Let_def)
next
  case False
  then show ?thesis
    using assms(1,2)
    by (auto simp: show_views_def print_daily_detail_def snd_then_run print_header_def
        print_model_summary_def print_stats_def print_legend_def print_timeline_table_def
        split: option.splits)
qed

text \<open>
  C8. When reading the input ends with a JSON decoding error, a missing file or any other
  exception, \<open>main\<close> exits with status 1, has written the one diagnostic of that failure
  to the error stream and nothing to standard output. When every block of the input is a
  gap (in particular when there is none), \<open>main\<close> exits with status 0 and an empty error
  stream whatever the flags (for \<open>--current\<close>, before the year 9999); and when the date
  asked for is not among the loaded days it prints the no-data notice for that date and
  exits with status 0.
\<close>

theorem read_errors_exit_1:
  "main fromisoformat now a (JSONDecodeError msg) =
     \<lparr> exit_code = 1, stdout = [], stderr = [InvalidJSON msg] \<rparr> \<and>
   main fromisoformat now a FileNotFoundError =
     \<lparr> exit_code = 1, stdout = [], stderr = [FileNotFound (arg_file a)] \<rparr> \<and>
   main fromisoformat now a (OtherException msg) =
     \<lparr> exit_code = 1, stdout = [], stderr = [OtherError msg] \<rparr> \<and>
   (list_all isGap (get_blocks jd) \<and> (arg_current a \<longrightarrow> year now < 9999) \<longrightarrow>
      exit_code (main fromisoformat now a (Parsed jd)) = 0 \<and>
      stderr (main fromisoformat now a (Parsed jd)) = []) \<and>
   (load_from_json fromisoformat (arg_no_color a) jd = Inr v \<and> \<not> arg_current a \<and>
    arg_date a = Some d \<and> d \<noteq> [] \<and> map_of (daily_data v) d = None \<longrightarrow>
      main fromisoformat now a (Parsed jd) =
        \<lparr> exit_code = 0, stdout = [NoDataFor d], stderr = [] \<rparr>)"
proof -
  have 1: "main fromisoformat now a (JSONDecodeError msg) =
     \<lparr> exit_code = 1, stdout = [], stderr = [InvalidJSON msg] \<rparr>"
    by (simp add: main_def)
  have 2: "main fromisoformat now a FileNotFoundError =
     \<lparr> exit_code = 1, stdout = [], stderr = [FileNotFound (arg_file a)] \<rparr>"
    by (simp add: main_def)
  have 3: "main fromisoformat now a (OtherException msg) =
     \<lparr> exit_code = 1, stdout = [], stderr = [OtherError msg] \<rparr>"
    by (simp add: main_def)
  have 4: "exit_code (main fromisoformat now a (Parsed jd)) = 0 \<and>
      stderr (main fromisoformat now a (Parsed jd)) = []"
    if "list_all isGap (get_blocks jd) \<and> (arg_current a \<longrightarrow> year now < 9999)"
  proof -
    have "filter (\<lambda>bd. \<not> isGap bd) (get_blocks jd) = []"
      using that by (simp add: list_all_iff filter_empty_conv)
    then have "load_blocks fromisoformat (get_blocks jd) = Inr []"
      using load_blocks_filter [of fromisoformat "get_blocks jd"] by simp
    then have l: "load_from_json fromisoformat (arg_no_color a) jd =
        Inr \<lparr> blocks = [], daily_data = [], no_color = arg_no_color a \<rparr>"
      by (simp add: load_from_json_def group_by_date_def)
    have "snd (show_views \<lparr> blocks = [], daily_data = [], no_color = arg_no_color a \<rparr> now a) = None"
      by (rule empty_dataset_views) (use that in simp_all)
    then show ?thesis
      by (simp add: main_def l finish_def)
  qed
  have 5: "main fromisoformat now a (Parsed jd) =
        \<lparr> exit_code = 0, stdout = [NoDataFor d], stderr = [] \<rparr>"
    if "load_from_json fromisoformat (arg_no_color a) jd = Inr v \<and> \<not> arg_current a \<and>
        arg_date a = Some d \<and> d \<noteq> [] \<and> map_of (daily_data v) d = None"
    using that by (simp add: main_def show_views_def print_daily_detail_def finish_def)
  show ?thesis using 1 2 3 4 5 by blast
qed


theorem read_errors_exit_1_witness:
  "main fromisoformat_basic example_now example_args
     (JSONDecodeError ''Expecting value: line 1 column 1 (char 0)'') =
     \<lparr> exit_code = 1, stdout = [],
       stderr = [InvalidJSON ''Expecting value: line 1 column 1 (char 0)''] \<rparr> \<and>
   main fromisoformat_basic example_now (example_args\<lparr>arg_file := Some ''missing.json''\<rparr>)
     FileNotFoundError =
     \<lparr> exit_code = 1, stdout = [], stderr = [FileNotFound (Some ''missing.json'')] \<rparr> \<and>
   list_all isGap (get_blocks \<lparr> json_blocks = Some [example_gap] \<rparr>) \<and>
   exit_code (main fromisoformat_basic example_now example_args
     (Parsed \<lparr> json_blocks = Some [example_gap] \<rparr>)) = 0 \<and>
   stderr (main fromisoformat_basic example_now example_args
     (Parsed \<lparr> json_blocks = Some [example_gap] \<rparr>)) = [] \<and>
   main fromisoformat_basic example_now (example_args\<lparr>arg_date := Some ''2099-01-01''\<rparr>)
     (Parsed example_json) =
     \<lparr> exit_code = 0, stdout = [NoDataFor ''2099-01-01''], stderr = [] \<rparr>"
proof -
  let ?v = "projr (load_from_json fromisoformat_basic True example_json)"
  let ?a = "example_args\<lparr>arg_date := Some ''2099-01-01''\<rparr>"
  let ?gaps = "\<lparr> json_blocks = Some [example_gap] \<rparr>"
  have h: "load_from_json fromisoformat_basic True example_json = Inr ?v"
    using example_json_loads by simp
  have nc: "arg_no_color ?a = True" "\<not> arg_current ?a" "arg_date ?a = Some ''2099-01-01''"
    "\<not> arg_current example_args"
    by (simp_all add: example_args_def)
  have m: "map_of (daily_data ?v) ''2099-01-01'' = None"
    by code_simp
  have g: "list_all isGap (get_blocks ?gaps)"
    by code_simp
  note t1 = read_errors_exit_1 [of fromisoformat_basic example_now example_args
      "''Expecting value: line 1 column 1 (char 0)''" ?gaps]
  note t2 = read_errors_exit_1 [of fromisoformat_basic example_now
      "example_args\<lparr>arg_file := Some ''missing.json''\<rparr>"]
  note t3 = read_errors_exit_1 [of fromisoformat_basic example_now ?a _ example_json ?v "''2099-01-01''"]
  have 1: "main fromisoformat_basic example_now example_args
     (JSONDecodeError ''Expecting value: line 1 column 1 (char 0)'') =
     \<lparr> exit_code = 1, stdout = [],
       stderr = [InvalidJSON ''Expecting value: line 1 column 1 (char 0)''] \<rparr>"
    using t1 by blast
  have 2: "main fromisoformat_basic example_now (example_args\<lparr>arg_file := Some ''missing.json''\<rparr>)
     FileNotFoundError =
     \<lparr> exit_code = 1, stdout = [], stderr = [FileNotFound (Some ''missing.json'')] \<rparr>"
    using t2 by simp
  have 3: "exit_code (main fromisoformat_basic example_now example_args (Parsed ?gaps)) = 0 \<and>
           stderr (main fromisoformat_basic example_now example_args (Parsed ?gaps)) = []"
    using t1 g nc(4) by blast
  have 4: "main fromisoformat_basic example_now ?a (Parsed example_json) =
     \<lparr> exit_code = 0, stdout = [NoDataFor ''2099-01-01''], stderr = [] \<rparr>"
    using t3 h nc m by simp
  show ?thesis using 1 2 g 3 4 by blast
qed

section \<open>The current window\<close>











lemma MAX_TOKENS_pos: "MAX_TOKENS_5H > 0"
  by (simp add: MAX_TOKENS_5H_def)

lemma toordinal_update_time [simp]:
  "toordinal (d\<lparr>hour := h, minute := m, second := s, microsecond := u\<rparr>) = toordinal d"
  by (simp add: toordinal_def)





end
